theory Spec2Isabelle
  imports Main "HOL-Library.Sublist"
begin

section \<open>The GPIO integration of room-assistant (gpio.service.ts)\<close>

text \<open>
  The service talks to three collaborators that are not part of the file: the onoff
  library (\<^verbatim>\<open>new Gpio\<close>, \<^verbatim>\<open>watch\<close>, \<^verbatim>\<open>unexport\<close>), the entity registry
  (\<^verbatim>\<open>entitiesService.add\<close>) and the id utility (\<^verbatim>\<open>makeId\<close>). Their calls are modelled
  as explicit effects on one state record; whether a call throws is decided by an
  environment of oracles, so that every theorem holds for every behaviour of the
  collaborators. A JavaScript exception is the left summand of the result, and the state
  reached when it was thrown is returned with it: nothing is rolled back.
\<close>

subsection \<open>Data\<close>

text \<open>A JavaScript \<^verbatim>\<open>Error\<close>: the callback and the logger read its message and stack.\<close>

datatype error = Error (message: string) (stack: string)

text \<open>The direction and edge arguments of \<^verbatim>\<open>new Gpio(pin, 'in', 'both')\<close>.\<close>

datatype direction = In | Out

datatype edge = Rising | Falling | Both

text \<open>
  A \<^verbatim>\<open>Gpio\<close> object. JavaScript objects have identity: two objects opened on the same
  pin are different handles. The first field is the allocation number of the object.
\<close>

datatype gpio = Gpio (gpio_ref: nat) (gpio_pin: int) (gpio_direction: direction)
  (gpio_edge: "edge option")

text \<open>
  An entry of \<^verbatim>\<open>config.binarySensors\<close> and of \<^verbatim>\<open>config.switches\<close>. Pin numbers
  are integers; the device class is one of the strings of \<^verbatim>\<open>BinarySensorDeviceClass\<close>.
\<close>

record pin_options =
  name :: string
  pin :: int

record binary_sensor_options = pin_options +
  deviceClass :: "string option"

record switch_options = pin_options +
  icon :: "string option"

record gpio_config =
  binarySensors :: "binary_sensor_options list"
  switches :: "switch_options list"

text \<open>
  An \<^verbatim>\<open>EntityCustomization\<close>: the configuration class it is for (the field \<^verbatim>\<open>for\<close> of
  the source) and the overrides object, a list of keys with optional values
  (\<^verbatim>\<open>undefined\<close> is \<open>None\<close>).
\<close>

datatype config_kind = BinarySensorConfig | SwitchConfig

record customization =
  for_config :: config_kind
  overrides :: "(string \<times> string option) list"

text \<open>
  The entities the service constructs: \<^verbatim>\<open>new BinarySensor(id, name)\<close> and
  \<^verbatim>\<open>new GpioSwitch(id, name, gpio)\<close>. The state of an entity is undefined until it is
  first set.
\<close>

datatype entity =
    BinarySensor (entity_id: string) (entity_name: string) (entity_state: "bool option")
  | GpioSwitch (entity_id: string) (entity_name: string) (entity_gpio: gpio)
      (entity_state: "bool option")

fun with_state :: "entity \<Rightarrow> bool \<Rightarrow> entity" where
  "with_state (BinarySensor i n _) b = BinarySensor i n (Some b)"
| "with_state (GpioSwitch i n g _) b = GpioSwitch i n g (Some b)"

text \<open>
  The callback passed to \<^verbatim>\<open>gpio.watch\<close> is a closure over the registered sensor; it is
  represented by the reference of the sensor it captured.
\<close>

datatype callback = SensorCallback nat

text \<open>
  The lines the service logs: \<^verbatim>\<open>'Closing opened GPIO pins'\<close>, the template
  \<^verbatim>\<open>`Opening pin ${pin} as input`\<close> with its pin, and
  \<^verbatim>\<open>logger.error(err.message, err.stack)\<close> with the two strings.
\<close>

datatype log_entry =
    ClosingOpenedPins
  | OpeningPinAsInput int
  | ErrorLogged string string

text \<open>The calls made on the collaborators, in the order they happen.\<close>

datatype event =
    Logged log_entry
  | Added nat entity "customization list"
  | AddThrew entity "customization list" error
  | Opened gpio
  | OpenThrew int direction "edge option" error
  | Watched gpio callback
  | WatchThrew gpio callback error
  | Unexported gpio
  | Written gpio int
  | StateSet nat bool

text \<open>
  The state: the field \<^verbatim>\<open>gpios\<close> of the service, and the world it acts on. An entity
  reference is the position of the entity in the registry.
\<close>

record bridge =
  gpios :: "gpio list"
  entities :: "(entity \<times> customization list) list"
  watchers :: "(gpio \<times> callback) list"
  allocated :: nat
  trace :: "event list"

text \<open>The behaviour of the collaborators: the id function, and which calls throw.\<close>

record env =
  makeId :: "string \<Rightarrow> string"
  add_throws :: "bridge \<Rightarrow> entity \<Rightarrow> customization list \<Rightarrow> error option"
  open_throws :: "bridge \<Rightarrow> int \<Rightarrow> direction \<Rightarrow> edge option \<Rightarrow> error option"
  watch_throws :: "bridge \<Rightarrow> gpio \<Rightarrow> error option"
  unexport_throws :: "bridge \<Rightarrow> gpio \<Rightarrow> error option"
  write_throws :: "bridge \<Rightarrow> gpio \<Rightarrow> int \<Rightarrow> error option"

text \<open>The service as constructed: \<^verbatim>\<open>gpios = []\<close>, and nothing has happened yet.\<close>

definition new_GpioService :: bridge where
  "new_GpioService =
     \<lparr>gpios = [], entities = [], watchers = [], allocated = 0, trace = []\<rparr>"

subsection \<open>The collaborators\<close>

definition emit :: "event \<Rightarrow> bridge \<Rightarrow> bridge" where
  "emit ev s = s\<lparr>trace := trace s @ [ev]\<rparr>"

definition logger_log :: "log_entry \<Rightarrow> bridge \<Rightarrow> bridge" where
  "logger_log l s = emit (Logged l) s"

definition logger_error :: "string \<Rightarrow> string \<Rightarrow> bridge \<Rightarrow> bridge" where
  "logger_error msg stk s = emit (Logged (ErrorLogged msg stk)) s"

text \<open>
  \<^verbatim>\<open>entitiesService.add(entity, customizations)\<close>: throws, or stores the entity and returns
  the reference to it.
\<close>

definition entitiesService_add ::
  "env \<Rightarrow> entity \<Rightarrow> customization list \<Rightarrow> bridge \<Rightarrow> (error + nat) \<times> bridge" where
  "entitiesService_add env e cs s =
     (case add_throws env s e cs of
        Some err \<Rightarrow> (Inl err, emit (AddThrew e cs err) s)
      | None \<Rightarrow>
          (Inr (length (entities s)),
           emit (Added (length (entities s)) e cs) (s\<lparr>entities := entities s @ [(e, cs)]\<rparr>)))"

text \<open>\<^verbatim>\<open>new Gpio(pin, direction, edge)\<close>: throws, or returns a fresh handle.\<close>

definition new_Gpio ::
  "env \<Rightarrow> int \<Rightarrow> direction \<Rightarrow> edge option \<Rightarrow> bridge \<Rightarrow> (error + gpio) \<times> bridge" where
  "new_Gpio env p d e s =
     (case open_throws env s p d e of
        Some err \<Rightarrow> (Inl err, emit (OpenThrew p d e err) s)
      | None \<Rightarrow>
          (Inr (Gpio (allocated s) p d e),
           emit (Opened (Gpio (allocated s) p d e)) (s\<lparr>allocated := Suc (allocated s)\<rparr>)))"

text \<open>
  \<^verbatim>\<open>gpio.watch(callback)\<close>: throws, leaving the handle without the listener, or adds
  the callback to the listeners of the handle.
\<close>

definition gpio_watch ::
  "env \<Rightarrow> gpio \<Rightarrow> callback \<Rightarrow> bridge \<Rightarrow> (error + unit) \<times> bridge" where
  "gpio_watch env g cb s =
     (case watch_throws env s g of
        Some err \<Rightarrow> (Inl err, emit (WatchThrew g cb err) s)
      | None \<Rightarrow> (Inr (), emit (Watched g cb) (s\<lparr>watchers := watchers s @ [(g, cb)]\<rparr>)))"

text \<open>
  \<^verbatim>\<open>gpio.unexport()\<close>: the call is recorded whether or not it throws. The library
  removes the listeners of the handle first and closes the pin afterwards, so the
  listeners are gone also when the release throws.
\<close>

definition gpio_unexport :: "env \<Rightarrow> gpio \<Rightarrow> bridge \<Rightarrow> (error + unit) \<times> bridge" where
  "gpio_unexport env g s =
     (case unexport_throws env s g of
        Some err \<Rightarrow>
          (Inl err, emit (Unexported g) (s\<lparr>watchers := filter (\<lambda>w. fst w \<noteq> g) (watchers s)\<rparr>))
      | None \<Rightarrow>
          (Inr (), emit (Unexported g) (s\<lparr>watchers := filter (\<lambda>w. fst w \<noteq> g) (watchers s)\<rparr>)))"

text \<open>
  Assigning \<^verbatim>\<open>entity.state\<close> through a reference. A reference always denotes a
  registered entity; the guard only makes the function total.
\<close>

definition set_state :: "nat \<Rightarrow> bool \<Rightarrow> bridge \<Rightarrow> bridge" where
  "set_state r b s =
     (if r < length (entities s)
      then emit (StateSet r b)
             (s\<lparr>entities := (entities s)
                   [r := (with_state (fst (entities s ! r)) b, snd (entities s ! r))]\<rparr>)
      else s)"

text \<open>
  \<^verbatim>\<open>Array.prototype.forEach\<close> with a callback that may throw: the first exception ends
  the iteration and is the result.
\<close>

fun forEach ::
  "('a \<Rightarrow> bridge \<Rightarrow> (error + 'b) \<times> bridge) \<Rightarrow> 'a list \<Rightarrow> bridge \<Rightarrow> (error + unit) \<times> bridge"
  where
  "forEach f [] s = (Inr (), s)"
| "forEach f (x # xs) s =
     (case f x s of
        (Inl err, s') \<Rightarrow> (Inl err, s')
      | (Inr _, s') \<Rightarrow> forEach f xs s')"

subsection \<open>GpioService\<close>

text \<open>\<^verbatim>\<open>createBinarySensor(name, pin, deviceClass)\<close>, lines 76 to 108.\<close>

definition createBinarySensor ::
  "env \<Rightarrow> string \<Rightarrow> int \<Rightarrow> string option \<Rightarrow> bridge \<Rightarrow> (error + nat) \<times> bridge" where
  "createBinarySensor env nm p dc s =
     (let ident = makeId env (''gpio '' @ nm);
          customizations =
            [\<lparr>for_config = BinarySensorConfig, overrides = [(''deviceClass'', dc)]\<rparr>]
      in case entitiesService_add env (BinarySensor ident nm None) customizations s of
           (Inl err, s1) \<Rightarrow> (Inl err, s1)
         | (Inr binarySensor, s1) \<Rightarrow>
             (case new_Gpio env p In (Some Both) (logger_log (OpeningPinAsInput p) s1) of
                (Inl err, s2) \<Rightarrow> (Inl err, s2)
              | (Inr g, s2) \<Rightarrow>
                  (case gpio_watch env g (SensorCallback binarySensor)
                          (s2\<lparr>gpios := gpios s2 @ [g]\<rparr>) of
                     (Inl err, s3) \<Rightarrow> (Inl err, s3)
                   | (Inr _, s3) \<Rightarrow> (Inr binarySensor, s3))))"

text \<open>\<^verbatim>\<open>createSwitch(name, pin, icon)\<close>, lines 118 to 136.\<close>

definition createSwitch ::
  "env \<Rightarrow> string \<Rightarrow> int \<Rightarrow> string option \<Rightarrow> bridge \<Rightarrow> (error + nat) \<times> bridge" where
  "createSwitch env nm p ic s =
     (let ident = makeId env (''gpio '' @ nm);
          customizations = [\<lparr>for_config = SwitchConfig, overrides = [(''icon'', ic)]\<rparr>]
      in case new_Gpio env p Out None s of
           (Inl err, s1) \<Rightarrow> (Inl err, s1)
         | (Inr g, s1) \<Rightarrow>
             entitiesService_add env (GpioSwitch ident nm g None) customizations
               (s1\<lparr>gpios := gpios s1 @ [g]\<rparr>))"

text \<open>\<^verbatim>\<open>onApplicationBootstrap()\<close>, lines 40 to 56.\<close>

definition onApplicationBootstrap :: "env \<Rightarrow> gpio_config \<Rightarrow> bridge \<Rightarrow> (error + unit) \<times> bridge"
  where
  "onApplicationBootstrap env cfg s =
     (case forEach (\<lambda>binarySensor.
              createBinarySensor env (name binarySensor) (pin binarySensor)
                (deviceClass binarySensor))
            (binarySensors cfg) s of
        (Inl err, s1) \<Rightarrow> (Inl err, s1)
      | (Inr _, s1) \<Rightarrow>
          forEach (\<lambda>switchOptions.
              createSwitch env (name switchOptions) (pin switchOptions) (icon switchOptions))
            (switches cfg) s1)"

text \<open>\<^verbatim>\<open>onApplicationShutdown()\<close>, lines 61 to 66.\<close>

definition onApplicationShutdown :: "env \<Rightarrow> bridge \<Rightarrow> (error + unit) \<times> bridge" where
  "onApplicationShutdown env s =
     forEach (gpio_unexport env) (gpios s) (logger_log ClosingOpenedPins s)"

subsection \<open>Edge notifications\<close>

text \<open>
  The callback of lines 98 to 105, called by the library with \<^verbatim>\<open>(err, value)\<close>, where
  \<^verbatim>\<open>err\<close> is an \<^verbatim>\<open>Error\<close> object or null: an error is logged and nothing else
  happens; otherwise the sensor's state becomes \<^verbatim>\<open>Boolean(value)\<close>, which for the
  level of a pin is \<open>value \<noteq> 0\<close>.
\<close>

fun run_callback :: "callback \<Rightarrow> error option \<Rightarrow> int \<Rightarrow> bridge \<Rightarrow> bridge" where
  "run_callback (SensorCallback binarySensor) err v s =
     (case err of
        Some e \<Rightarrow> logger_error (message e) (stack e) s
      | None \<Rightarrow> set_state binarySensor (v \<noteq> 0) s)"

text \<open>One notification on a handle runs the callbacks attached to it, in order.\<close>

definition listeners :: "gpio \<Rightarrow> bridge \<Rightarrow> callback list" where
  "listeners g s = map snd (filter (\<lambda>w. fst w = g) (watchers s))"

definition notify :: "gpio \<Rightarrow> error option \<times> int \<Rightarrow> bridge \<Rightarrow> bridge" where
  "notify g n s = fold (\<lambda>cb. run_callback cb (fst n) (snd n)) (listeners g s) s"

definition notify_all :: "gpio \<Rightarrow> (error option \<times> int) list \<Rightarrow> bridge \<Rightarrow> bridge" where
  "notify_all g ns s = fold (notify g) ns s"

subsection \<open>GpioSwitch\<close>

text \<open>
  \<^verbatim>\<open>gpio.writeSync(value)\<close> of the library: the call is recorded whether or not it
  throws.
\<close>

definition gpio_writeSync :: "env \<Rightarrow> gpio \<Rightarrow> int \<Rightarrow> bridge \<Rightarrow> (error + unit) \<times> bridge" where
  "gpio_writeSync env g v s =
     (case write_throws env s g v of
        Some err \<Rightarrow> (Inl err, emit (Written g v) s)
      | None \<Rightarrow> (Inr (), emit (Written g v) s))"

text \<open>
  Modelled from the spec: the class \<^verbatim>\<open>GpioSwitch\<close> (gpio.switch.ts) is not among the
  sources; only its constructor call in \<^verbatim>\<open>createSwitch\<close> is. Section 4.4 of the
  specification gives its contract: \<^verbatim>\<open>setState(entity, desired)\<close> synchronously calls
  \<^verbatim>\<open>write(boundPin, desired ? 1 : 0)\<close>; if the write fails, the failure is reported
  and the externally visible state of the entity is not updated; otherwise the state
  becomes the desired value. A reference that is not a switch has no such operation; the
  guards only make the function total.
\<close>

definition setState :: "env \<Rightarrow> nat \<Rightarrow> bool \<Rightarrow> bridge \<Rightarrow> (error + unit) \<times> bridge" where
  "setState env r desired s =
     (if r < length (entities s)
      then (case fst (entities s ! r) of
              GpioSwitch i n boundPin st \<Rightarrow>
                (case gpio_writeSync env boundPin (if desired then 1 else 0) s of
                   (Inl err, s1) \<Rightarrow> (Inl err, s1)
                 | (Inr _, s1) \<Rightarrow> (Inr (), set_state r desired s1))
            | BinarySensor i n st \<Rightarrow> (Inr (), s))
      else (Inr (), s))"

subsection \<open>Reading the trace\<close>

fun opened :: "event \<Rightarrow> gpio list" where
  "opened (Opened g) = [g]"
| "opened _ = []"

fun unexported :: "event \<Rightarrow> gpio list" where
  "unexported (Unexported g) = [g]"
| "unexported _ = []"

fun logged :: "event \<Rightarrow> log_entry list" where
  "logged (Logged l) = [l]"
| "logged _ = []"

fun state_set :: "nat \<Rightarrow> event \<Rightarrow> bool list" where
  "state_set r (StateSet r' b) = (if r' = r then [b] else [])"
| "state_set r _ = []"

fun written :: "event \<Rightarrow> (gpio \<times> int) list" where
  "written (Written g v) = [(g, v)]"
| "written _ = []"

definition opened_gpios :: "bridge \<Rightarrow> gpio list" where
  "opened_gpios s = concat (map opened (trace s))"

definition unexport_calls :: "bridge \<Rightarrow> gpio list" where
  "unexport_calls s = concat (map unexported (trace s))"

definition log_entries :: "bridge \<Rightarrow> log_entry list" where
  "log_entries s = concat (map logged (trace s))"

definition state_writes :: "nat \<Rightarrow> bridge \<Rightarrow> bool list" where
  "state_writes r s = concat (map (state_set r) (trace s))"

definition write_calls :: "bridge \<Rightarrow> (gpio \<times> int) list" where
  "write_calls s = concat (map written (trace s))"

text \<open>
  What a list of notifications makes the callback do: the state values of the
  notifications without an error, and the log lines of those with one.
\<close>

definition accepted :: "(error option \<times> int) list \<Rightarrow> bool list" where
  "accepted ns = map (\<lambda>n. snd n \<noteq> 0) (filter (\<lambda>n. fst n = None) ns)"

definition rejected :: "(error option \<times> int) list \<Rightarrow> log_entry list" where
  "rejected ns =
     concat (map (\<lambda>n. case fst n of
                         None \<Rightarrow> []
                       | Some e \<Rightarrow> [ErrorLogged (message e) (stack e)]) ns)"

subsection \<open>What a declaration registers\<close>

text \<open>
  The entity and the customizations that \<^verbatim>\<open>createBinarySensor\<close> and
  \<^verbatim>\<open>createSwitch\<close> pass to the registry for a declaration, as named values for the
  statements below.
\<close>

definition sensor_entity :: "env \<Rightarrow> string \<Rightarrow> string option \<Rightarrow> entity \<times> customization list" where
  "sensor_entity env nm dc =
     (BinarySensor (makeId env (''gpio '' @ nm)) nm None,
      [\<lparr>for_config = BinarySensorConfig, overrides = [(''deviceClass'', dc)]\<rparr>])"

definition switch_entity ::
  "env \<Rightarrow> string \<Rightarrow> string option \<Rightarrow> gpio \<Rightarrow> entity \<times> customization list" where
  "switch_entity env nm ic g =
     (GpioSwitch (makeId env (''gpio '' @ nm)) nm g None,
      [\<lparr>for_config = SwitchConfig, overrides = [(''icon'', ic)]\<rparr>])"

subsection \<open>Well-formed states\<close>

text \<open>
  The states the service can be in: the registry holds exactly the handles opened so far,
  and every handle in the registry or with a listener was allocated earlier, so that the
  next handle is a new object.
\<close>

definition consistent :: "bridge \<Rightarrow> bool" where
  "consistent s \<longleftrightarrow>
     opened_gpios s = gpios s \<and>
     distinct (map gpio_ref (gpios s)) \<and>
     (\<forall>g \<in> set (gpios s). gpio_ref g < allocated s) \<and>
     (\<forall>w \<in> set (watchers s). gpio_ref (fst w) < allocated s)"

text \<open>
  A sensor bound to its handle: the handle is in the registry, its only listener is the
  callback of the sensor with reference \<open>r\<close>, and the registry holds the entity at \<open>r\<close>.
\<close>

definition bound_sensor :: "gpio \<Rightarrow> nat \<Rightarrow> entity \<times> customization list \<Rightarrow> bridge \<Rightarrow> bool" where
  "bound_sensor g r e s \<longleftrightarrow>
     consistent s \<and> g \<in> set (gpios s) \<and> listeners g s = [SensorCallback r]
     \<and> r < length (entities s) \<and> entities s ! r = e"

subsection \<open>Example environments and runs\<close>

text \<open>A world in which no call throws, and the id function is the identity.\<close>

definition quiet_env :: env where
  "quiet_env =
     \<lparr>makeId = (\<lambda>seed. seed),
      add_throws = (\<lambda>_ _ _. None),
      open_throws = (\<lambda>_ _ _ _. None),
      watch_throws = (\<lambda>_ _. None),
      unexport_throws = (\<lambda>_ _. None),
      write_throws = (\<lambda>_ _ _. None)\<rparr>"

text \<open>
  A world in which pin 6 cannot be opened and the registry refuses the name
  \<open>''broken''\<close>; releases succeed.
\<close>

definition startup_faults_env :: env where
  "startup_faults_env =
     \<lparr>makeId = (\<lambda>seed. seed),
      add_throws =
        (\<lambda>_ e _. if entity_name e = ''broken'' then Some (Error ''exists'' ''add'') else None),
      open_throws = (\<lambda>_ p _ _. if p = 6 then Some (Error ''EINVAL'' ''open'') else None),
      watch_throws = (\<lambda>_ _. None),
      unexport_throws = (\<lambda>_ _. None),
      write_throws = (\<lambda>_ _ _. None)\<rparr>"

text \<open>
  The same world, in which moreover the first handle allocated cannot be released and
  pin 17 cannot be written.
\<close>

definition faulty_env :: env where
  "faulty_env =
     \<lparr>makeId = (\<lambda>seed. seed),
      add_throws =
        (\<lambda>_ e _. if entity_name e = ''broken'' then Some (Error ''exists'' ''add'') else None),
      open_throws = (\<lambda>_ p _ _. if p = 6 then Some (Error ''EINVAL'' ''open'') else None),
      watch_throws = (\<lambda>_ _. None),
      unexport_throws =
        (\<lambda>_ g. if gpio_ref g = 0 then Some (Error ''EACCES'' ''unexport'') else None),
      write_throws =
        (\<lambda>_ g _. if gpio_pin g = 17 then Some (Error ''EPERM'' ''write'') else None)\<rparr>"

text \<open>A world in which only the second handle allocated cannot be released.\<close>

definition late_fault_env :: env where
  "late_fault_env =
     \<lparr>makeId = (\<lambda>seed. seed),
      add_throws = (\<lambda>_ _ _. None),
      open_throws = (\<lambda>_ _ _ _. None),
      watch_throws = (\<lambda>_ _. None),
      unexport_throws =
        (\<lambda>_ g. if gpio_ref g = 1 then Some (Error ''EBUSY'' ''unexport'') else None),
      write_throws = (\<lambda>_ _ _. None)\<rparr>"

text \<open>A world in which a handle on pin 5 cannot be watched.\<close>

definition watch_fault_env :: env where
  "watch_fault_env =
     \<lparr>makeId = (\<lambda>seed. seed),
      add_throws = (\<lambda>_ _ _. None),
      open_throws = (\<lambda>_ _ _ _. None),
      watch_throws = (\<lambda>_ g. if gpio_pin g = 5 then Some (Error ''EPERM'' ''watch'') else None),
      unexport_throws = (\<lambda>_ _. None),
      write_throws = (\<lambda>_ _ _. None)\<rparr>"

text \<open>One sensor and one switch, and the state a bootstrap without error leaves.\<close>

definition example_config :: gpio_config where
  "example_config =
     \<lparr>binarySensors = [\<lparr>name = ''front-door'', pin = 4, deviceClass = None\<rparr>],
      switches = [\<lparr>name = ''lamp'', pin = 17, icon = None\<rparr>]\<rparr>"

definition example_booted :: bridge where
  "example_booted =
     \<lparr>gpios = [Gpio 0 4 In (Some Both), Gpio 1 17 Out None],
      entities =
        [(BinarySensor ''gpio front-door'' ''front-door'' None,
          [\<lparr>for_config = BinarySensorConfig, overrides = [(''deviceClass'', None)]\<rparr>]),
         (GpioSwitch ''gpio lamp'' ''lamp'' (Gpio 1 17 Out None) None,
          [\<lparr>for_config = SwitchConfig, overrides = [(''icon'', None)]\<rparr>])],
      watchers = [(Gpio 0 4 In (Some Both), SensorCallback 0)],
      allocated = 2,
      trace =
        [Added 0 (BinarySensor ''gpio front-door'' ''front-door'' None)
           [\<lparr>for_config = BinarySensorConfig, overrides = [(''deviceClass'', None)]\<rparr>],
         Logged (OpeningPinAsInput 4),
         Opened (Gpio 0 4 In (Some Both)),
         Watched (Gpio 0 4 In (Some Both)) (SensorCallback 0),
         Opened (Gpio 1 17 Out None),
         Added 1 (GpioSwitch ''gpio lamp'' ''lamp'' (Gpio 1 17 Out None) None)
           [\<lparr>for_config = SwitchConfig, overrides = [(''icon'', None)]\<rparr>]]\<rparr>"

text \<open>
  Two sensors and two switches, the first switch on pin 6, and the state in which the
  bootstrap is abandoned when pin 6 cannot be opened.
\<close>

definition failing_config :: gpio_config where
  "failing_config =
     \<lparr>binarySensors = [\<lparr>name = ''front-door'', pin = 4, deviceClass = Some ''door''\<rparr>,
                       \<lparr>name = ''window'', pin = 5, deviceClass = None\<rparr>],
      switches = [\<lparr>name = ''valve'', pin = 6, icon = None\<rparr>,
                  \<lparr>name = ''lamp'', pin = 17, icon = Some ''mdi:lamp''\<rparr>]\<rparr>"

definition example_aborted :: bridge where
  "example_aborted =
     \<lparr>gpios = [Gpio 0 4 In (Some Both), Gpio 1 5 In (Some Both)],
      entities =
        [(BinarySensor ''gpio front-door'' ''front-door'' None,
          [\<lparr>for_config = BinarySensorConfig, overrides = [(''deviceClass'', Some ''door'')]\<rparr>]),
         (BinarySensor ''gpio window'' ''window'' None,
          [\<lparr>for_config = BinarySensorConfig, overrides = [(''deviceClass'', None)]\<rparr>])],
      watchers = [(Gpio 0 4 In (Some Both), SensorCallback 0),
                  (Gpio 1 5 In (Some Both), SensorCallback 1)],
      allocated = 2,
      trace =
        [Added 0 (BinarySensor ''gpio front-door'' ''front-door'' None)
           [\<lparr>for_config = BinarySensorConfig, overrides = [(''deviceClass'', Some ''door'')]\<rparr>],
         Logged (OpeningPinAsInput 4),
         Opened (Gpio 0 4 In (Some Both)),
         Watched (Gpio 0 4 In (Some Both)) (SensorCallback 0),
         Added 1 (BinarySensor ''gpio window'' ''window'' None)
           [\<lparr>for_config = BinarySensorConfig, overrides = [(''deviceClass'', None)]\<rparr>],
         Logged (OpeningPinAsInput 5),
         Opened (Gpio 1 5 In (Some Both)),
         Watched (Gpio 1 5 In (Some Both)) (SensorCallback 1),
         OpenThrew 6 Out None (Error ''EINVAL'' ''open'')]\<rparr>"

text \<open>
  The state in which the bootstrap of the same declarations is abandoned when the handle
  of the second sensor, on pin 5, cannot be watched: the handle is opened and in the
  registry, and has no listener.
\<close>

definition example_unwatched :: bridge where
  "example_unwatched =
     \<lparr>gpios = [Gpio 0 4 In (Some Both), Gpio 1 5 In (Some Both)],
      entities =
        [(BinarySensor ''gpio front-door'' ''front-door'' None,
          [\<lparr>for_config = BinarySensorConfig, overrides = [(''deviceClass'', Some ''door'')]\<rparr>]),
         (BinarySensor ''gpio window'' ''window'' None,
          [\<lparr>for_config = BinarySensorConfig, overrides = [(''deviceClass'', None)]\<rparr>])],
      watchers = [(Gpio 0 4 In (Some Both), SensorCallback 0)],
      allocated = 2,
      trace =
        [Added 0 (BinarySensor ''gpio front-door'' ''front-door'' None)
           [\<lparr>for_config = BinarySensorConfig, overrides = [(''deviceClass'', Some ''door'')]\<rparr>],
         Logged (OpeningPinAsInput 4),
         Opened (Gpio 0 4 In (Some Both)),
         Watched (Gpio 0 4 In (Some Both)) (SensorCallback 0),
         Added 1 (BinarySensor ''gpio window'' ''window'' None)
           [\<lparr>for_config = BinarySensorConfig, overrides = [(''deviceClass'', None)]\<rparr>],
         Logged (OpeningPinAsInput 5),
         Opened (Gpio 1 5 In (Some Both)),
         WatchThrew (Gpio 1 5 In (Some Both)) (SensorCallback 1) (Error ''EPERM'' ''watch'')]\<rparr>"

text \<open>The state of that run after both sensors, before the first switch.\<close>

definition example_sensors_done :: bridge where
  "example_sensors_done = example_aborted\<lparr>trace := butlast (trace example_aborted)\<rparr>"

section \<open>Auxiliary facts\<close>

subsection \<open>What one declaration does\<close>

lemma emit_fields [simp]:
  "gpios (emit ev s) = gpios s"
  "entities (emit ev s) = entities s"
  "watchers (emit ev s) = watchers s"
  "allocated (emit ev s) = allocated s"
  "trace (emit ev s) = trace s @ [ev]"
  by (simp_all add: emit_def)

lemma createBinarySensor_Inr:
  assumes "createBinarySensor env nm p dc s = (Inr r, s')"
  shows "r = length (entities s)"
    and "entities s' = entities s @ [sensor_entity env nm dc]"
    and "gpios s' = gpios s @ [Gpio (allocated s) p In (Some Both)]"
    and "watchers s' =
           watchers s @ [(Gpio (allocated s) p In (Some Both), SensorCallback (length (entities s)))]"
    and "allocated s' = Suc (allocated s)"
    and "trace s' = trace s @
           [Added (length (entities s)) (fst (sensor_entity env nm dc)) (snd (sensor_entity env nm dc)),
            Logged (OpeningPinAsInput p),
            Opened (Gpio (allocated s) p In (Some Both)),
            Watched (Gpio (allocated s) p In (Some Both)) (SensorCallback (length (entities s)))]"
  using assms
  by (auto simp: createBinarySensor_def entitiesService_add_def new_Gpio_def gpio_watch_def
      logger_log_def sensor_entity_def Let_def split: option.splits)

lemma createBinarySensor_Inl:
  assumes "createBinarySensor env nm p dc s = (Inl err, s')"
  shows "s' = emit (AddThrew (fst (sensor_entity env nm dc)) (snd (sensor_entity env nm dc)) err) s
       \<or> (entities s' = entities s @ [sensor_entity env nm dc] \<and> gpios s' = gpios s
          \<and> watchers s' = watchers s \<and> allocated s' = allocated s
          \<and> trace s' = trace s @
              [Added (length (entities s)) (fst (sensor_entity env nm dc))
                 (snd (sensor_entity env nm dc)),
               Logged (OpeningPinAsInput p),
               OpenThrew p In (Some Both) err])
       \<or> (entities s' = entities s @ [sensor_entity env nm dc]
          \<and> gpios s' = gpios s @ [Gpio (allocated s) p In (Some Both)]
          \<and> watchers s' = watchers s \<and> allocated s' = Suc (allocated s)
          \<and> trace s' = trace s @
              [Added (length (entities s)) (fst (sensor_entity env nm dc))
                 (snd (sensor_entity env nm dc)),
               Logged (OpeningPinAsInput p),
               Opened (Gpio (allocated s) p In (Some Both)),
               WatchThrew (Gpio (allocated s) p In (Some Both))
                 (SensorCallback (length (entities s))) err])"
  using assms
  by (auto simp: createBinarySensor_def entitiesService_add_def new_Gpio_def gpio_watch_def
      logger_log_def sensor_entity_def Let_def split: option.splits)

lemma createSwitch_Inr:
  assumes "createSwitch env nm p ic s = (Inr r, s')"
  shows "r = length (entities s)"
    and "entities s' = entities s @ [switch_entity env nm ic (Gpio (allocated s) p Out None)]"
    and "gpios s' = gpios s @ [Gpio (allocated s) p Out None]"
    and "watchers s' = watchers s"
    and "allocated s' = Suc (allocated s)"
    and "trace s' = trace s @
           [Opened (Gpio (allocated s) p Out None),
            Added (length (entities s)) (fst (switch_entity env nm ic (Gpio (allocated s) p Out None)))
              (snd (switch_entity env nm ic (Gpio (allocated s) p Out None)))]"
  using assms
  by (auto simp: createSwitch_def entitiesService_add_def new_Gpio_def
      switch_entity_def Let_def split: option.splits)

lemma createSwitch_Inl:
  assumes "createSwitch env nm p ic s = (Inl err, s')"
  shows "s' = emit (OpenThrew p Out None err) s
       \<or> (entities s' = entities s \<and> gpios s' = gpios s @ [Gpio (allocated s) p Out None]
          \<and> watchers s' = watchers s \<and> allocated s' = Suc (allocated s)
          \<and> trace s' = trace s @
              [Opened (Gpio (allocated s) p Out None),
               AddThrew (fst (switch_entity env nm ic (Gpio (allocated s) p Out None)))
                 (snd (switch_entity env nm ic (Gpio (allocated s) p Out None))) err])"
  using assms
  by (auto simp: createSwitch_def entitiesService_add_def new_Gpio_def
      switch_entity_def Let_def split: option.splits)

subsection \<open>Iteration\<close>

lemma forEach_append:
  "forEach f (xs @ ys) s =
     (case forEach f xs s of (Inl err, s1) \<Rightarrow> (Inl err, s1) | (Inr _, s1) \<Rightarrow> forEach f ys s1)"
  by (induction xs arbitrary: s) (auto split: prod.splits sum.splits)

lemma forEach_Inl_decomp:
  "forEach f xs s = (Inl err, s') \<Longrightarrow>
     \<exists>pre x post s1. xs = pre @ x # post \<and> forEach f pre s = (Inr (), s1) \<and> f x s1 = (Inl err, s')"
proof (induction xs arbitrary: s)
  case Nil
  then show ?case by simp
next
  case (Cons a xs)
  show ?case
  proof (cases "f a s")
    case (Pair r s1)
    show ?thesis
    proof (cases r)
      case (Inl e)
      with Pair Cons.prems have "f a s = (Inl err, s')" by simp
      then have "a # xs = [] @ a # xs \<and> forEach f [] s = (Inr (), s) \<and> f a s = (Inl err, s')"
        by simp
      then show ?thesis by blast
    next
      case (Inr v)
      with Pair Cons.prems have "forEach f xs s1 = (Inl err, s')" by simp
      from Cons.IH [OF this] obtain pre x post s2 where
        "xs = pre @ x # post" "forEach f pre s1 = (Inr (), s2)" "f x s2 = (Inl err, s')"
        by blast
      with Pair Inr have "a # xs = (a # pre) @ x # post \<and> forEach f (a # pre) s = (Inr (), s2)
          \<and> f x s2 = (Inl err, s')"
        by simp
      then show ?thesis by blast
    qed
  qed
qed

lemma forEach_stops:
  "forEach f pre s = (Inr (), s1) \<Longrightarrow> f x s1 = (Inl err, s2) \<Longrightarrow>
     forEach f (pre @ x # post) s = (Inl err, s2)"
  by (simp add: forEach_append)

lemma forEach_invariant:
  assumes step: "\<And>x s r s'. P s \<Longrightarrow> f x s = (r, s') \<Longrightarrow> P s'"
  shows "P s \<Longrightarrow> forEach f xs s = (res, s') \<Longrightarrow> P s'"
proof (induction xs arbitrary: s)
  case Nil
  then show ?case by simp
next
  case (Cons a xs)
  obtain r s1 where fa: "f a s = (r, s1)" by (cases "f a s")
  from step [OF Cons.prems(1) fa] have P1: "P s1" .
  show ?case
  proof (cases r)
    case (Inl e)
    with fa Cons.prems(2) have "s' = s1" by simp
    with P1 show ?thesis by simp
  next
    case (Inr v)
    with fa Cons.prems(2) have "forEach f xs s1 = (res, s')" by simp
    from Cons.IH [OF P1 this] show ?thesis .
  qed
qed

lemma forEach_prefix:
  assumes step: "\<And>x s r s'. f x s = (r, s') \<Longrightarrow> prefix (gpios s) (gpios s')"
  shows "forEach f xs s = (res, s') \<Longrightarrow> prefix (gpios s) (gpios s')"
proof (induction xs arbitrary: s)
  case Nil
  then show ?case by simp
next
  case (Cons a xs)
  obtain r s1 where fa: "f a s = (r, s1)" by (cases "f a s")
  have p1: "prefix (gpios s) (gpios s1)" by (rule step [OF fa])
  show ?case
  proof (cases r)
    case (Inl e)
    with fa Cons.prems have "s' = s1" by simp
    with p1 show ?thesis by simp
  next
    case (Inr v)
    with fa Cons.prems have "forEach f xs s1 = (res, s')" by simp
    from Cons.IH [OF this] p1 show ?thesis by (rule prefix_order.trans [rotated])
  qed
qed

lemma forEach_snoc:
  "forEach f (xs @ [x]) s =
     (case forEach f xs s of
        (Inl err, s1) \<Rightarrow> (Inl err, s1)
      | (Inr _, s1) \<Rightarrow> (case f x s1 of (Inl err, s2) \<Rightarrow> (Inl err, s2) | (Inr _, s2) \<Rightarrow> (Inr (), s2)))"
  by (simp add: forEach_append split: prod.splits sum.splits)

lemma forEach_snoc_Inr:
  assumes "forEach f (xs @ [x]) s = (Inr (), s')"
  obtains s1 r where "forEach f xs s = (Inr (), s1)" and "f x s1 = (Inr r, s')"
  using assms by (auto simp: forEach_snoc split: prod.splits sum.splits)

subsection \<open>The state after a bootstrap without error\<close>

lemma sensors_Inr:
  "forEach (\<lambda>b. createBinarySensor env (name b) (pin b) (deviceClass b)) ds s = (Inr (), s') \<Longrightarrow>
     entities s' = entities s @ map (\<lambda>d. sensor_entity env (name d) (deviceClass d)) ds \<and>
     allocated s' = allocated s + length ds \<and>
     gpios s' = gpios s @
       map (\<lambda>i. Gpio (allocated s + i) (pin (ds ! i)) In (Some Both)) [0..<length ds] \<and>
     watchers s' = watchers s @
       map (\<lambda>i. (Gpio (allocated s + i) (pin (ds ! i)) In (Some Both),
                 SensorCallback (length (entities s) + i))) [0..<length ds]"
proof (induction ds arbitrary: s' rule: rev_induct)
  case Nil
  then show ?case by simp
next
  case (snoc d ds)
  from snoc.prems obtain s1 r where
    pre: "forEach (\<lambda>b. createBinarySensor env (name b) (pin b) (deviceClass b)) ds s = (Inr (), s1)"
    and last: "createBinarySensor env (name d) (pin d) (deviceClass d) s1 = (Inr r, s')"
    by (rule forEach_snoc_Inr)
  note ih = snoc.IH [OF pre]
  note st = createBinarySensor_Inr [OF last]
  show ?case
    using ih st(2-5) by (simp add: nth_append cong: map_cong)
qed

lemma switches_Inr:
  "forEach (\<lambda>w. createSwitch env (name w) (pin w) (icon w)) ws s = (Inr (), s') \<Longrightarrow>
     entities s' = entities s @
       map (\<lambda>i. switch_entity env (name (ws ! i)) (icon (ws ! i))
                  (Gpio (allocated s + i) (pin (ws ! i)) Out None)) [0..<length ws] \<and>
     allocated s' = allocated s + length ws \<and>
     gpios s' = gpios s @
       map (\<lambda>i. Gpio (allocated s + i) (pin (ws ! i)) Out None) [0..<length ws] \<and>
     watchers s' = watchers s"
proof (induction ws arbitrary: s' rule: rev_induct)
  case Nil
  then show ?case by simp
next
  case (snoc d ds)
  from snoc.prems obtain s1 r where
    pre: "forEach (\<lambda>w. createSwitch env (name w) (pin w) (icon w)) ds s = (Inr (), s1)"
    and last: "createSwitch env (name d) (pin d) (icon d) s1 = (Inr r, s')"
    by (rule forEach_snoc_Inr)
  note ih = snoc.IH [OF pre]
  note st = createSwitch_Inr [OF last]
  show ?case
    using ih st(2-5) by (simp add: nth_append cong: map_cong)
qed

lemma bootstrap_Inr:
  assumes "onApplicationBootstrap env cfg s = (Inr (), s')"
  shows "entities s' = entities s @
           map (\<lambda>d. sensor_entity env (name d) (deviceClass d)) (binarySensors cfg) @
           map (\<lambda>i. switch_entity env (name (switches cfg ! i)) (icon (switches cfg ! i))
                  (Gpio (allocated s + length (binarySensors cfg) + i) (pin (switches cfg ! i)) Out None))
             [0..<length (switches cfg)]"
    and "gpios s' = gpios s @
           map (\<lambda>i. Gpio (allocated s + i) (pin (binarySensors cfg ! i)) In (Some Both))
             [0..<length (binarySensors cfg)] @
           map (\<lambda>i. Gpio (allocated s + length (binarySensors cfg) + i) (pin (switches cfg ! i)) Out None)
             [0..<length (switches cfg)]"
    and "watchers s' = watchers s @
           map (\<lambda>i. (Gpio (allocated s + i) (pin (binarySensors cfg ! i)) In (Some Both),
                     SensorCallback (length (entities s) + i))) [0..<length (binarySensors cfg)]"
    and "allocated s' = allocated s + length (binarySensors cfg) + length (switches cfg)"
proof -
  from assms obtain s1 where
    a: "forEach (\<lambda>b. createBinarySensor env (name b) (pin b) (deviceClass b)) (binarySensors cfg) s
          = (Inr (), s1)"
    and b: "forEach (\<lambda>w. createSwitch env (name w) (pin w) (icon w)) (switches cfg) s1 = (Inr (), s')"
    by (auto simp: onApplicationBootstrap_def split: prod.splits sum.splits)
  note A = sensors_Inr [OF a]
  note B = switches_Inr [OF b]
  show "entities s' = entities s @
           map (\<lambda>d. sensor_entity env (name d) (deviceClass d)) (binarySensors cfg) @
           map (\<lambda>i. switch_entity env (name (switches cfg ! i)) (icon (switches cfg ! i))
                  (Gpio (allocated s + length (binarySensors cfg) + i) (pin (switches cfg ! i)) Out None))
             [0..<length (switches cfg)]"
    using A B by simp
  show "gpios s' = gpios s @
           map (\<lambda>i. Gpio (allocated s + i) (pin (binarySensors cfg ! i)) In (Some Both))
             [0..<length (binarySensors cfg)] @
           map (\<lambda>i. Gpio (allocated s + length (binarySensors cfg) + i) (pin (switches cfg ! i)) Out None)
             [0..<length (switches cfg)]"
    using A B by simp
  show "watchers s' = watchers s @
           map (\<lambda>i. (Gpio (allocated s + i) (pin (binarySensors cfg ! i)) In (Some Both),
                     SensorCallback (length (entities s) + i))) [0..<length (binarySensors cfg)]"
    using A B by simp
  show "allocated s' = allocated s + length (binarySensors cfg) + length (switches cfg)"
    using A B by simp
qed

subsection \<open>Well-formedness is kept\<close>

lemma opened_gpios_emit [simp]: "opened_gpios (emit ev s) = opened_gpios s @ opened ev"
  by (simp add: opened_gpios_def)

lemma unexport_calls_emit [simp]: "unexport_calls (emit ev s) = unexport_calls s @ unexported ev"
  by (simp add: unexport_calls_def)

lemma log_entries_emit [simp]: "log_entries (emit ev s) = log_entries s @ logged ev"
  by (simp add: log_entries_def)

lemma state_writes_emit [simp]: "state_writes r (emit ev s) = state_writes r s @ state_set r ev"
  by (simp add: state_writes_def)

lemma consistent_same:
  assumes "consistent s" and "gpios s' = gpios s" and "trace s' = trace s @ evs"
    and "concat (map opened evs) = []"
    and "allocated s' = allocated s" and "watchers s' = watchers s"
  shows "consistent s'"
proof -
  have "opened_gpios s' = opened_gpios s"
    using assms(3,4) by (simp add: opened_gpios_def)
  then show ?thesis
    using assms(1,2,5,6) by (auto simp: consistent_def)
qed

lemma consistent_step:
  assumes "consistent s" and "gpios s' = gpios s @ [g]" and "trace s' = trace s @ evs"
    and "concat (map opened evs) = [g]" and "gpio_ref g = allocated s"
    and "allocated s' = Suc (allocated s)"
    and "set (watchers s') \<subseteq> insert (g, cb) (set (watchers s))"
  shows "consistent s'"
proof -
  have "opened_gpios s' = opened_gpios s @ [g]"
    using assms(3,4) by (simp add: opened_gpios_def)
  then have "opened_gpios s' = gpios s'"
    using assms(1,2) by (auto simp: consistent_def)
  moreover have "distinct (map gpio_ref (gpios s'))"
    using assms(1,2,5) by (auto simp: consistent_def)
  moreover have "\<forall>h \<in> set (gpios s'). gpio_ref h < allocated s'"
    using assms(1,2,5,6) by (auto simp: consistent_def less_Suc_eq)
  moreover have "\<forall>w \<in> set (watchers s'). gpio_ref (fst w) < allocated s'"
  proof
    fix w assume "w \<in> set (watchers s')"
    with assms(7) have "w = (g, cb) \<or> w \<in> set (watchers s)" by auto
    then show "gpio_ref (fst w) < allocated s'"
      using assms(1,5,6) by (auto simp: consistent_def less_Suc_eq)
  qed
  ultimately show ?thesis by (simp add: consistent_def)
qed

lemma consistent_createBinarySensor:
  assumes "consistent s" and "createBinarySensor env nm p dc s = (res, s')"
  shows "consistent s'"
proof (cases res)
  case (Inl err)
  with assms(2) have f: "createBinarySensor env nm p dc s = (Inl err, s')" by simp
  from createBinarySensor_Inl [OF f] show ?thesis
  proof (elim disjE)
    assume "s' = emit (AddThrew (fst (sensor_entity env nm dc)) (snd (sensor_entity env nm dc)) err) s"
    then show ?thesis
      by (intro consistent_same [OF assms(1), where evs = "[AddThrew (fst (sensor_entity env nm dc))
            (snd (sensor_entity env nm dc)) err]"]) simp_all
  next
    assume "entities s' = entities s @ [sensor_entity env nm dc] \<and> gpios s' = gpios s
          \<and> watchers s' = watchers s \<and> allocated s' = allocated s
          \<and> trace s' = trace s @
              [Added (length (entities s)) (fst (sensor_entity env nm dc))
                 (snd (sensor_entity env nm dc)),
               Logged (OpeningPinAsInput p),
               OpenThrew p In (Some Both) err]"
    then show ?thesis
      by (intro consistent_same [OF assms(1), where evs = "[Added (length (entities s))
            (fst (sensor_entity env nm dc)) (snd (sensor_entity env nm dc)),
            Logged (OpeningPinAsInput p), OpenThrew p In (Some Both) err]"]) simp_all
  next
    assume w: "entities s' = entities s @ [sensor_entity env nm dc]
          \<and> gpios s' = gpios s @ [Gpio (allocated s) p In (Some Both)]
          \<and> watchers s' = watchers s \<and> allocated s' = Suc (allocated s)
          \<and> trace s' = trace s @
              [Added (length (entities s)) (fst (sensor_entity env nm dc))
                 (snd (sensor_entity env nm dc)),
               Logged (OpeningPinAsInput p),
               Opened (Gpio (allocated s) p In (Some Both)),
               WatchThrew (Gpio (allocated s) p In (Some Both))
                 (SensorCallback (length (entities s))) err]"
    show ?thesis
      by (rule consistent_step [OF assms(1), where g = "Gpio (allocated s) p In (Some Both)"
            and cb = "SensorCallback 0"
            and evs = "[Added (length (entities s)) (fst (sensor_entity env nm dc))
                 (snd (sensor_entity env nm dc)),
               Logged (OpeningPinAsInput p),
               Opened (Gpio (allocated s) p In (Some Both)),
               WatchThrew (Gpio (allocated s) p In (Some Both))
                 (SensorCallback (length (entities s))) err]"])
         (use w in auto)
  qed
next
  case (Inr r)
  with assms(2) have f: "createBinarySensor env nm p dc s = (Inr r, s')" by simp
  note st = createBinarySensor_Inr [OF f]
  show ?thesis
    by (rule consistent_step [OF assms(1) st(3) st(6) _ _ st(5),
          where cb = "SensorCallback (length (entities s))"])
       (simp_all add: st(4))
qed

lemma consistent_createSwitch:
  assumes "consistent s" and "createSwitch env nm p ic s = (res, s')"
  shows "consistent s'"
proof (cases res)
  case (Inl err)
  with assms(2) have f: "createSwitch env nm p ic s = (Inl err, s')" by simp
  from createSwitch_Inl [OF f] show ?thesis
  proof
    assume "s' = emit (OpenThrew p Out None err) s"
    then show ?thesis
      by (intro consistent_same [OF assms(1), where evs = "[OpenThrew p Out None err]"]) simp_all
  next
    assume a: "entities s' = entities s \<and> gpios s' = gpios s @ [Gpio (allocated s) p Out None]
          \<and> watchers s' = watchers s \<and> allocated s' = Suc (allocated s)
          \<and> trace s' = trace s @
              [Opened (Gpio (allocated s) p Out None),
               AddThrew (fst (switch_entity env nm ic (Gpio (allocated s) p Out None)))
                 (snd (switch_entity env nm ic (Gpio (allocated s) p Out None))) err]"
    show ?thesis
      by (rule consistent_step [OF assms(1), where g = "Gpio (allocated s) p Out None"
            and cb = "SensorCallback 0"
            and evs = "[Opened (Gpio (allocated s) p Out None),
               AddThrew (fst (switch_entity env nm ic (Gpio (allocated s) p Out None)))
                 (snd (switch_entity env nm ic (Gpio (allocated s) p Out None))) err]"])
         (use a in auto)
  qed
next
  case (Inr r)
  with assms(2) have f: "createSwitch env nm p ic s = (Inr r, s')" by simp
  note st = createSwitch_Inr [OF f]
  show ?thesis
    by (rule consistent_step [OF assms(1) st(3) st(6) _ _ st(5), where cb = "SensorCallback 0"])
       (auto simp: st(4))
qed

lemma consistent_bootstrap:
  assumes "consistent s" and "onApplicationBootstrap env cfg s = (res, s')"
  shows "consistent s'"
proof -
  obtain r1 s1 where
    a: "forEach (\<lambda>b. createBinarySensor env (name b) (pin b) (deviceClass b)) (binarySensors cfg) s
          = (r1, s1)"
    by (cases "forEach (\<lambda>b. createBinarySensor env (name b) (pin b) (deviceClass b))
                 (binarySensors cfg) s")
  have c1: "consistent s1"
    by (rule forEach_invariant [where P = consistent, OF _ assms(1) a])
       (rule consistent_createBinarySensor)
  show ?thesis
  proof (cases r1)
    case (Inl e)
    with a assms(2) have "s' = s1" by (simp add: onApplicationBootstrap_def)
    with c1 show ?thesis by simp
  next
    case (Inr u)
    with a assms(2) have
      b: "forEach (\<lambda>w. createSwitch env (name w) (pin w) (icon w)) (switches cfg) s1 = (res, s')"
      by (simp add: onApplicationBootstrap_def)
    show ?thesis
      by (rule forEach_invariant [where P = consistent, OF _ c1 b])
         (rule consistent_createSwitch)
  qed
qed

lemma consistent_new: "consistent new_GpioService"
  by (simp add: consistent_def new_GpioService_def opened_gpios_def)

lemma consistent_distinct: "consistent s \<Longrightarrow> distinct (gpios s)"
  by (auto simp: consistent_def dest: distinct_map [THEN iffD1])

subsection \<open>Shutdown\<close>

lemma gpio_unexport_calls:
  "gpio_unexport env g s = (res, s') \<Longrightarrow>
     unexport_calls s' = unexport_calls s @ [g] \<and> log_entries s' = log_entries s
     \<and> gpios s' = gpios s \<and> entities s' = entities s"
  by (auto simp: gpio_unexport_def unexport_calls_def log_entries_def emit_def
      split: option.splits)

lemma gpio_unexport_Inl:
  "gpio_unexport env g s = (Inl err, s') \<Longrightarrow> unexport_throws env s g = Some err"
  by (auto simp: gpio_unexport_def split: option.splits)

lemma unexport_all_Inr:
  "forEach (gpio_unexport env) gs s = (Inr (), s') \<Longrightarrow>
     unexport_calls s' = unexport_calls s @ gs \<and> log_entries s' = log_entries s"
proof (induction gs arbitrary: s)
  case Nil
  then show ?case by simp
next
  case (Cons g gs)
  obtain r s1 where st: "gpio_unexport env g s = (r, s1)" by (cases "gpio_unexport env g s")
  with Cons.prems obtain u where "r = Inr u" and rest: "forEach (gpio_unexport env) gs s1 = (Inr (), s')"
    by (cases r) auto
  from gpio_unexport_calls [OF st] Cons.IH [OF rest] show ?case by simp
qed

lemma unexport_all_Inl:
  assumes "forEach (gpio_unexport env) gs s = (Inl err, s')"
  shows "\<exists>k<length gs. unexport_calls s' = unexport_calls s @ take (Suc k) gs
           \<and> (\<exists>sk. unexport_throws env sk (gs ! k) = Some err)
           \<and> log_entries s' = log_entries s"
proof -
  from forEach_Inl_decomp [OF assms] obtain pre g post s1 where
    gs: "gs = pre @ g # post" and pre: "forEach (gpio_unexport env) pre s = (Inr (), s1)"
    and fails: "gpio_unexport env g s1 = (Inl err, s')"
    by blast
  have "length pre < length gs" using gs by simp
  moreover have "unexport_calls s' = unexport_calls s @ take (Suc (length pre)) gs"
    using unexport_all_Inr [OF pre] gpio_unexport_calls [OF fails] gs by simp
  moreover have "unexport_throws env s1 (gs ! length pre) = Some err"
    using gpio_unexport_Inl [OF fails] gs by simp
  moreover have "log_entries s' = log_entries s"
    using unexport_all_Inr [OF pre] gpio_unexport_calls [OF fails] by simp
  ultimately show ?thesis by blast
qed

subsection \<open>Notifications\<close>

lemma set_state_fields [simp]:
  "watchers (set_state r b s) = watchers s"
  "gpios (set_state r b s) = gpios s"
  "length (entities (set_state r b s)) = length (entities s)"
  by (simp_all add: set_state_def)

lemma listeners_set_state [simp]: "listeners g (set_state r b s) = listeners g s"
  by (simp add: listeners_def)

lemma set_state_writes:
  "r < length (entities s) \<Longrightarrow> state_writes r (set_state r b s) = state_writes r s @ [b]"
  by (simp add: set_state_def state_writes_def emit_def)

lemma set_state_entity:
  "r < length (entities s) \<Longrightarrow> entity_state (fst (entities (set_state r b s) ! r)) = Some b"
  by (cases "fst (entities s ! r)") (simp_all add: set_state_def)

lemma set_state_log [simp]: "log_entries (set_state r b s) = log_entries s"
  by (simp add: set_state_def log_entries_def emit_def)

lemma notify_value:
  "listeners g s = [SensorCallback r] \<Longrightarrow> notify g (None, v) s = set_state r (v \<noteq> 0) s"
  by (simp add: notify_def)

lemma notify_error:
  "listeners g s = [SensorCallback r] \<Longrightarrow>
     notify g (Some e, v) s = logger_error (message e) (stack e) s"
  by (simp add: notify_def)

subsection \<open>The registry only grows\<close>

lemma createBinarySensor_prefix:
  "createBinarySensor env nm p dc s = (res, s') \<Longrightarrow> prefix (gpios s) (gpios s')"
  by (cases res) (auto dest!: createBinarySensor_Inl createBinarySensor_Inr(3))

lemma createSwitch_prefix:
  "createSwitch env nm p ic s = (res, s') \<Longrightarrow> prefix (gpios s) (gpios s')"
  by (cases res) (auto dest!: createSwitch_Inl createSwitch_Inr(3))

lemma bootstrap_prefix:
  assumes "onApplicationBootstrap env cfg s = (res, s')"
  shows "prefix (gpios s) (gpios s')"
proof -
  obtain r1 s1 where
    a: "forEach (\<lambda>b. createBinarySensor env (name b) (pin b) (deviceClass b)) (binarySensors cfg) s
          = (r1, s1)"
    by (cases "forEach (\<lambda>b. createBinarySensor env (name b) (pin b) (deviceClass b))
                 (binarySensors cfg) s")
  have p1: "prefix (gpios s) (gpios s1)"
    by (rule forEach_prefix [OF _ a]) (rule createBinarySensor_prefix)
  show ?thesis
  proof (cases r1)
    case (Inl e)
    with a assms have "s' = s1" by (simp add: onApplicationBootstrap_def)
    with p1 show ?thesis by simp
  next
    case (Inr u)
    with a assms have
      b: "forEach (\<lambda>w. createSwitch env (name w) (pin w) (icon w)) (switches cfg) s1 = (res, s')"
      by (simp add: onApplicationBootstrap_def)
    have "prefix (gpios s1) (gpios s')"
      by (rule forEach_prefix [OF _ b]) (rule createSwitch_prefix)
    with p1 show ?thesis by (rule prefix_order.trans)
  qed
qed

lemma bootstrap_registry:
  assumes "consistent s" and "onApplicationBootstrap env cfg s = (res, s')"
  shows "\<exists>new. opened_gpios s' = opened_gpios s @ new \<and> gpios s' = gpios s @ new"
proof -
  from bootstrap_prefix [OF assms(2)] obtain new where n: "gpios s' = gpios s @ new"
    by (auto simp: prefix_def)
  have "consistent s'" by (rule consistent_bootstrap [OF assms])
  then have "opened_gpios s' = gpios s'" by (simp add: consistent_def)
  moreover have "opened_gpios s = gpios s" using assms(1) by (simp add: consistent_def)
  ultimately show ?thesis using n by simp
qed


subsection \<open>Sequences of notifications\<close>

lemma notify_all_Cons: "notify_all g (n # ns) s = notify_all g ns (notify g n s)"
  by (simp add: notify_all_def)

lemma notify_all_Nil: "notify_all g [] s = s"
  by (simp add: notify_all_def)

lemma notify_all_snoc: "notify_all g (ns @ [n]) s = notify g n (notify_all g ns s)"
  by (simp add: notify_all_def)

lemma logger_error_fields [simp]:
  "entities (logger_error m k s) = entities s"
  "watchers (logger_error m k s) = watchers s"
  "gpios (logger_error m k s) = gpios s"
  "listeners g (logger_error m k s) = listeners g s"
  "state_writes r (logger_error m k s) = state_writes r s"
  "log_entries (logger_error m k s) = log_entries s @ [ErrorLogged m k]"
  by (simp_all add: logger_error_def listeners_def)

lemma notify_all_mixed:
  assumes "listeners g s = [SensorCallback r]" and "r < length (entities s)"
  shows "state_writes r (notify_all g ns s) = state_writes r s @ accepted ns
       \<and> log_entries (notify_all g ns s) = log_entries s @ rejected ns
       \<and> listeners g (notify_all g ns s) = [SensorCallback r]
       \<and> watchers (notify_all g ns s) = watchers s
       \<and> length (entities (notify_all g ns s)) = length (entities s)"
  using assms
proof (induction ns arbitrary: s)
  case Nil
  then show ?case by (simp add: notify_all_Nil accepted_def rejected_def)
next
  case (Cons n ns)
  obtain err v where n: "n = (err, v)" by (cases n)
  show ?case
  proof (cases err)
    case None
    have st: "notify g (None, v) s = set_state r (v \<noteq> 0) s"
      using Cons.prems by (simp add: notify_value)
    have "listeners g (set_state r (v \<noteq> 0) s) = [SensorCallback r]"
      and "r < length (entities (set_state r (v \<noteq> 0) s))"
      using Cons.prems by simp_all
    from Cons.IH [OF this] show ?thesis
      using Cons.prems(2) n None
      by (simp add: notify_all_Cons st set_state_writes accepted_def rejected_def)
  next
    case (Some e)
    have st: "notify g (Some e, v) s = logger_error (message e) (stack e) s"
      using Cons.prems by (simp add: notify_error)
    have "listeners g (logger_error (message e) (stack e) s) = [SensorCallback r]"
      and "r < length (entities (logger_error (message e) (stack e) s))"
      using Cons.prems by simp_all
    from Cons.IH [OF this] show ?thesis
      using n Some by (simp add: notify_all_Cons st accepted_def rejected_def)
  qed
qed

lemma accepted_values: "accepted (map (\<lambda>v. (None, v)) vs) = map (\<lambda>v. v \<noteq> 0) vs"
  by (simp add: accepted_def comp_def)

lemma notify_all_last_value:
  assumes "listeners g s = [SensorCallback r]" and "r < length (entities s)" and "vs \<noteq> []"
  shows "entity_state (fst (entities (notify_all g (map (\<lambda>v. (None, v)) vs) s) ! r))
           = Some (last vs \<noteq> 0)"
proof -
  from assms(3) obtain ws w where vs: "vs = ws @ [w]" by (metis rev_exhaust)
  let ?s1 = "notify_all g (map (\<lambda>v. (None, v)) ws) s"
  from notify_all_mixed [OF assms(1,2), of "map (\<lambda>v. (None, v)) ws"]
  have l: "listeners g ?s1 = [SensorCallback r]" and n: "r < length (entities ?s1)"
    using assms(2) by simp_all
  have "notify_all g (map (\<lambda>v. (None, v)) vs) s = set_state r (w \<noteq> 0) ?s1"
    using vs l by (simp add: notify_all_snoc notify_value)
  then show ?thesis using vs n by (simp add: set_state_entity)
qed

subsection \<open>A bound sensor stays bound\<close>

lemma bound_sensor_grow:
  assumes "bound_sensor g r e s" and "consistent s'"
    and "prefix (gpios s) (gpios s')"
    and "watchers s' = watchers s \<or> (\<exists>cb p d ed. watchers s' = watchers s @ [(Gpio (allocated s) p d ed, cb)])"
    and "entities s' = entities s \<or> (\<exists>x. entities s' = entities s @ [x])"
  shows "bound_sensor g r e s'"
proof -
  from assms(1) have g: "g \<in> set (gpios s)" and l: "listeners g s = [SensorCallback r]"
    and r: "r < length (entities s)" and e: "entities s ! r = e" and c: "consistent s"
    by (simp_all add: bound_sensor_def)
  from c g have ref: "gpio_ref g < allocated s" by (simp add: consistent_def)
  from assms(3) g have g': "g \<in> set (gpios s')" by (auto simp: prefix_def)
  from assms(4) have l': "listeners g s' = [SensorCallback r]"
  proof
    assume "watchers s' = watchers s"
    with l show ?thesis by (simp add: listeners_def)
  next
    assume "\<exists>cb p d ed. watchers s' = watchers s @ [(Gpio (allocated s) p d ed, cb)]"
    then obtain cb p d ed where w: "watchers s' = watchers s @ [(Gpio (allocated s) p d ed, cb)]"
      by blast
    have "g \<noteq> Gpio (allocated s) p d ed" using ref by auto
    with l w show ?thesis by (simp add: listeners_def)
  qed
  from assms(5) r e have "r < length (entities s') \<and> entities s' ! r = e"
    by (auto simp: nth_append)
  with assms(2) g' l' show ?thesis by (simp add: bound_sensor_def)
qed

lemma bound_sensor_createBinarySensor:
  assumes "bound_sensor g r e s" and "createBinarySensor env nm p dc s = (res, s')"
  shows "bound_sensor g r e s'"
proof -
  from assms(1) have c: "consistent s" by (simp add: bound_sensor_def)
  have c': "consistent s'" by (rule consistent_createBinarySensor [OF c assms(2)])
  have pre: "prefix (gpios s) (gpios s')" by (rule createBinarySensor_prefix [OF assms(2)])
  have "(watchers s' = watchers s
          \<or> (\<exists>cb p d ed. watchers s' = watchers s @ [(Gpio (allocated s) p d ed, cb)]))
      \<and> (entities s' = entities s \<or> (\<exists>x. entities s' = entities s @ [x]))"
  proof (cases res)
    case (Inl err)
    with assms(2) have "createBinarySensor env nm p dc s = (Inl err, s')" by simp
    from createBinarySensor_Inl [OF this] show ?thesis
    proof (elim disjE)
      assume "s' = emit (AddThrew (fst (sensor_entity env nm dc))
                          (snd (sensor_entity env nm dc)) err) s"
      then show ?thesis by simp
    next
      assume "entities s' = entities s @ [sensor_entity env nm dc] \<and> gpios s' = gpios s
          \<and> watchers s' = watchers s \<and> allocated s' = allocated s
          \<and> trace s' = trace s @
              [Added (length (entities s)) (fst (sensor_entity env nm dc))
                 (snd (sensor_entity env nm dc)),
               Logged (OpeningPinAsInput p),
               OpenThrew p In (Some Both) err]"
      then show ?thesis by blast
    next
      assume w: "entities s' = entities s @ [sensor_entity env nm dc]
          \<and> gpios s' = gpios s @ [Gpio (allocated s) p In (Some Both)]
          \<and> watchers s' = watchers s \<and> allocated s' = Suc (allocated s)
          \<and> trace s' = trace s @
              [Added (length (entities s)) (fst (sensor_entity env nm dc))
                 (snd (sensor_entity env nm dc)),
               Logged (OpeningPinAsInput p),
               Opened (Gpio (allocated s) p In (Some Both)),
               WatchThrew (Gpio (allocated s) p In (Some Both))
                 (SensorCallback (length (entities s))) err]"
      then show ?thesis by blast
    qed
  next
    case (Inr k)
    with assms(2) have "createBinarySensor env nm p dc s = (Inr k, s')" by simp
    from createBinarySensor_Inr(2,4) [OF this] show ?thesis by blast
  qed
  then show ?thesis
    using bound_sensor_grow [OF assms(1) c' pre] by blast
qed

lemma bound_sensor_createSwitch:
  assumes "bound_sensor g r e s" and "createSwitch env nm p ic s = (res, s')"
  shows "bound_sensor g r e s'"
proof -
  from assms(1) have c: "consistent s" by (simp add: bound_sensor_def)
  have c': "consistent s'" by (rule consistent_createSwitch [OF c assms(2)])
  have pre: "prefix (gpios s) (gpios s')" by (rule createSwitch_prefix [OF assms(2)])
  have "watchers s' = watchers s
      \<and> (entities s' = entities s \<or> (\<exists>x. entities s' = entities s @ [x]))"
  proof (cases res)
    case (Inl err)
    with assms(2) have "createSwitch env nm p ic s = (Inl err, s')" by simp
    from createSwitch_Inl [OF this] show ?thesis
    proof
      assume "s' = emit (OpenThrew p Out None err) s"
      then show ?thesis by simp
    next
      assume "entities s' = entities s \<and> gpios s' = gpios s @ [Gpio (allocated s) p Out None]
          \<and> watchers s' = watchers s \<and> allocated s' = Suc (allocated s)
          \<and> trace s' = trace s @
              [Opened (Gpio (allocated s) p Out None),
               AddThrew (fst (switch_entity env nm ic (Gpio (allocated s) p Out None)))
                 (snd (switch_entity env nm ic (Gpio (allocated s) p Out None))) err]"
      then show ?thesis by blast
    qed
  next
    case (Inr k)
    with assms(2) have "createSwitch env nm p ic s = (Inr k, s')" by simp
    from createSwitch_Inr(2,4) [OF this] show ?thesis by blast
  qed
  then show ?thesis
    using bound_sensor_grow [OF assms(1) c' pre] by blast
qed

lemma bound_sensor_created:
  assumes "consistent s" and "createBinarySensor env nm p dc s = (Inr r, s')"
  shows "bound_sensor (Gpio (allocated s) p In (Some Both)) r (sensor_entity env nm dc) s'"
proof -
  note st = createBinarySensor_Inr [OF assms(2)]
  have c': "consistent s'" by (rule consistent_createBinarySensor [OF assms])
  have "filter (\<lambda>w. fst w = Gpio (allocated s) p In (Some Both)) (watchers s) = []"
    using assms(1) by (auto simp: consistent_def filter_empty_conv)
  then have "listeners (Gpio (allocated s) p In (Some Both)) s' = [SensorCallback r]"
    using st(1,4) by (simp add: listeners_def)
  with c' st(1,2,3) show ?thesis by (simp add: bound_sensor_def)
qed

lemma bound_sensor_rest:
  assumes "bound_sensor g r e s2"
    and "forEach (\<lambda>b. createBinarySensor env (name b) (pin b) (deviceClass b)) post s2 = (r1, s3)"
    and "(case r1 of Inl err \<Rightarrow> (Inl err, s3)
          | Inr _ \<Rightarrow> forEach (\<lambda>w. createSwitch env (name w) (pin w) (icon w)) sw s3) = (res, s')"
  shows "bound_sensor g r e s'"
proof -
  have b3: "bound_sensor g r e s3"
    by (rule forEach_invariant [where P = "bound_sensor g r e", OF _ assms(1,2)])
       (rule bound_sensor_createBinarySensor)
  show ?thesis
  proof (cases r1)
    case (Inl err)
    with assms(3) have "s' = s3" by simp
    with b3 show ?thesis by simp
  next
    case (Inr u)
    with assms(3) have
      b: "forEach (\<lambda>w. createSwitch env (name w) (pin w) (icon w)) sw s3 = (res, s')"
      by simp
    show ?thesis
      by (rule forEach_invariant [where P = "bound_sensor g r e", OF _ b3 b])
         (rule bound_sensor_createSwitch)
  qed
qed

lemma bound_sensor_bootstrap:
  assumes "consistent s"
    and "binarySensors cfg = pre @ d # post"
    and "forEach (\<lambda>b. createBinarySensor env (name b) (pin b) (deviceClass b)) pre s = (Inr (), s1)"
    and "createBinarySensor env (name d) (pin d) (deviceClass d) s1 = (Inr r, s2)"
    and "onApplicationBootstrap env cfg s = (res, s')"
  shows "bound_sensor (Gpio (allocated s1) (pin d) In (Some Both)) r
           (sensor_entity env (name d) (deviceClass d)) s'"
proof -
  have c1: "consistent s1"
    by (rule forEach_invariant [where P = consistent, OF _ assms(1,3)])
       (rule consistent_createBinarySensor)
  have b2: "bound_sensor (Gpio (allocated s1) (pin d) In (Some Both)) r
              (sensor_entity env (name d) (deviceClass d)) s2"
    by (rule bound_sensor_created [OF c1 assms(4)])
  obtain r1 s3 where
    p: "forEach (\<lambda>b. createBinarySensor env (name b) (pin b) (deviceClass b)) post s2 = (r1, s3)"
    by (cases "forEach (\<lambda>b. createBinarySensor env (name b) (pin b) (deviceClass b)) post s2")
  have all: "forEach (\<lambda>b. createBinarySensor env (name b) (pin b) (deviceClass b))
               (binarySensors cfg) s = (r1, s3)"
    unfolding assms(2) using assms(3,4) p by (simp add: forEach_append)
  have "(case r1 of Inl err \<Rightarrow> (Inl err, s3)
          | Inr _ \<Rightarrow> forEach (\<lambda>w. createSwitch env (name w) (pin w) (icon w)) (switches cfg) s3)
        = (res, s')"
    using assms(5) all by (simp add: onApplicationBootstrap_def)
  from bound_sensor_rest [OF b2 p this] show ?thesis .
qed

subsection \<open>Where a bootstrap fails\<close>

lemma bootstrap_sensor_failure:
  assumes "forEach (\<lambda>b. createBinarySensor env (name b) (pin b) (deviceClass b)) pre s = (Inr (), s1)"
    and "createBinarySensor env (name d) (pin d) (deviceClass d) s1 = (Inl err, s2)"
  shows "onApplicationBootstrap env \<lparr>binarySensors = pre @ d # post, switches = sw\<rparr> s = (Inl err, s2)"
  using forEach_stops [where f = "\<lambda>b. createBinarySensor env (name b) (pin b) (deviceClass b)",
      OF assms(1), of d err s2 post] assms(2)
  by (simp add: onApplicationBootstrap_def)

lemma bootstrap_switch_failure:
  assumes "forEach (\<lambda>b. createBinarySensor env (name b) (pin b) (deviceClass b)) bs s = (Inr (), s1)"
    and "forEach (\<lambda>w. createSwitch env (name w) (pin w) (icon w)) pre s1 = (Inr (), s2)"
    and "createSwitch env (name d) (pin d) (icon d) s2 = (Inl err, s3)"
  shows "onApplicationBootstrap env \<lparr>binarySensors = bs, switches = pre @ d # post\<rparr> s = (Inl err, s3)"
  using forEach_stops [where f = "\<lambda>w. createSwitch env (name w) (pin w) (icon w)",
      OF assms(2), of d err s3 post] assms(1,3)
  by (simp add: onApplicationBootstrap_def)

lemma bootstrap_failure_origin:
  assumes "onApplicationBootstrap env cfg s = (Inl err, s')"
  shows "(\<exists>pre d post s1. binarySensors cfg = pre @ d # post
            \<and> forEach (\<lambda>b. createBinarySensor env (name b) (pin b) (deviceClass b)) pre s = (Inr (), s1)
            \<and> createBinarySensor env (name d) (pin d) (deviceClass d) s1 = (Inl err, s'))
       \<or> (\<exists>pre d post s1 s2. switches cfg = pre @ d # post
            \<and> forEach (\<lambda>b. createBinarySensor env (name b) (pin b) (deviceClass b))
                 (binarySensors cfg) s = (Inr (), s1)
            \<and> forEach (\<lambda>w. createSwitch env (name w) (pin w) (icon w)) pre s1 = (Inr (), s2)
            \<and> createSwitch env (name d) (pin d) (icon d) s2 = (Inl err, s'))"
proof -
  obtain r1 s1 where
    a: "forEach (\<lambda>b. createBinarySensor env (name b) (pin b) (deviceClass b)) (binarySensors cfg) s
          = (r1, s1)"
    by (cases "forEach (\<lambda>b. createBinarySensor env (name b) (pin b) (deviceClass b))
                 (binarySensors cfg) s")
  show ?thesis
  proof (cases r1)
    case (Inl e)
    with a assms have "forEach (\<lambda>b. createBinarySensor env (name b) (pin b) (deviceClass b))
        (binarySensors cfg) s = (Inl err, s')"
      by (simp add: onApplicationBootstrap_def)
    from forEach_Inl_decomp [OF this] show ?thesis by blast
  next
    case (Inr u)
    with a have a': "forEach (\<lambda>b. createBinarySensor env (name b) (pin b) (deviceClass b))
        (binarySensors cfg) s = (Inr (), s1)"
      by simp
    with assms have
      "forEach (\<lambda>w. createSwitch env (name w) (pin w) (icon w)) (switches cfg) s1 = (Inl err, s')"
      by (simp add: onApplicationBootstrap_def)
    from forEach_Inl_decomp [OF this] a' show ?thesis by blast
  qed
qed

lemma sensor_registration_fails:
  assumes "entitiesService_add env (fst (sensor_entity env nm dc)) (snd (sensor_entity env nm dc)) s
             = (Inl err, s1)"
  shows "createBinarySensor env nm p dc s = (Inl err, s1)
       \<and> trace s1 = trace s @ [AddThrew (fst (sensor_entity env nm dc)) (snd (sensor_entity env nm dc)) err]
       \<and> opened_gpios s1 = opened_gpios s \<and> gpios s1 = gpios s \<and> entities s1 = entities s"
  using assms
  by (auto simp: createBinarySensor_def entitiesService_add_def sensor_entity_def Let_def
      opened_gpios_def emit_def split: option.splits)

lemma sensor_open_fails:
  assumes "entitiesService_add env (fst (sensor_entity env nm dc)) (snd (sensor_entity env nm dc)) s
             = (Inr r, s1)"
    and "new_Gpio env p In (Some Both) (logger_log (OpeningPinAsInput p) s1) = (Inl err, s2)"
  shows "createBinarySensor env nm p dc s = (Inl err, s2)
       \<and> entities s2 = entities s @ [sensor_entity env nm dc]
       \<and> watchers s2 = watchers s \<and> gpios s2 = gpios s \<and> opened_gpios s2 = opened_gpios s"
  using assms
  by (auto simp: createBinarySensor_def entitiesService_add_def new_Gpio_def logger_log_def
      sensor_entity_def Let_def opened_gpios_def emit_def split: option.splits)

lemma switch_open_fails:
  assumes "new_Gpio env p Out None s = (Inl err, s1)"
  shows "createSwitch env nm p ic s = (Inl err, s1)
       \<and> trace s1 = trace s @ [OpenThrew p Out None err]
       \<and> entities s1 = entities s \<and> gpios s1 = gpios s"
  using assms
  by (auto simp: createSwitch_def new_Gpio_def Let_def emit_def split: option.splits)

lemma switch_registration_fails:
  assumes "new_Gpio env p Out None s = (Inr g, s1)"
    and "entitiesService_add env (fst (switch_entity env nm ic g)) (snd (switch_entity env nm ic g))
           (s1\<lparr>gpios := gpios s1 @ [g]\<rparr>) = (Inl err, s2)"
  shows "createSwitch env nm p ic s = (Inl err, s2)
       \<and> gpios s2 = gpios s @ [g] \<and> opened_gpios s2 = opened_gpios s @ [g]
       \<and> entities s2 = entities s"
  using assms
  by (auto simp: createSwitch_def entitiesService_add_def new_Gpio_def switch_entity_def Let_def
      opened_gpios_def emit_def split: option.splits)

subsection \<open>Derived ids\<close>

lemma drop_snoc_all:
  assumes "\<forall>x \<in> set (drop k es). Q x" and "Q y"
  shows "\<forall>x \<in> set (drop k (es @ [y])). Q x"
proof
  fix x assume "x \<in> set (drop k (es @ [y]))"
  then have "x \<in> set (drop k es) \<or> x \<in> set (drop (k - length es) [y])" by simp
  then have "x \<in> set (drop k es) \<or> x = y" by (auto dest: in_set_dropD)
  with assms show "Q x" by blast
qed

lemma derived_id_sensor:
  "entity_id (fst (sensor_entity env nm dc))
     = makeId env (''gpio '' @ entity_name (fst (sensor_entity env nm dc)))"
  by (simp add: sensor_entity_def)

lemma derived_id_switch:
  "entity_id (fst (switch_entity env nm ic g))
     = makeId env (''gpio '' @ entity_name (fst (switch_entity env nm ic g)))"
  by (simp add: switch_entity_def)

lemma derived_ids_createBinarySensor:
  assumes "\<forall>x \<in> set (drop k (entities s)).
             entity_id (fst x) = makeId env (''gpio '' @ entity_name (fst x))"
    and "createBinarySensor env nm p dc s = (res, s')"
  shows "\<forall>x \<in> set (drop k (entities s')).
           entity_id (fst x) = makeId env (''gpio '' @ entity_name (fst x))"
proof -
  have "entities s' = entities s \<or> entities s' = entities s @ [sensor_entity env nm dc]"
  proof (cases res)
    case (Inl err)
    with assms(2) have "createBinarySensor env nm p dc s = (Inl err, s')" by simp
    from createBinarySensor_Inl [OF this] show ?thesis
    proof (elim disjE)
      assume "s' = emit (AddThrew (fst (sensor_entity env nm dc))
                          (snd (sensor_entity env nm dc)) err) s"
      then have "entities s' = entities s" by (simp only: emit_fields)
      then show ?thesis by (rule disjI1)
    next
      assume "entities s' = entities s @ [sensor_entity env nm dc] \<and> gpios s' = gpios s
          \<and> watchers s' = watchers s \<and> allocated s' = allocated s
          \<and> trace s' = trace s @
              [Added (length (entities s)) (fst (sensor_entity env nm dc))
                 (snd (sensor_entity env nm dc)),
               Logged (OpeningPinAsInput p),
               OpenThrew p In (Some Both) err]"
      then have "entities s' = entities s @ [sensor_entity env nm dc]" by (rule conjunct1)
      then show ?thesis by (rule disjI2)
    next
      assume w: "entities s' = entities s @ [sensor_entity env nm dc]
          \<and> gpios s' = gpios s @ [Gpio (allocated s) p In (Some Both)]
          \<and> watchers s' = watchers s \<and> allocated s' = Suc (allocated s)
          \<and> trace s' = trace s @
              [Added (length (entities s)) (fst (sensor_entity env nm dc))
                 (snd (sensor_entity env nm dc)),
               Logged (OpeningPinAsInput p),
               Opened (Gpio (allocated s) p In (Some Both)),
               WatchThrew (Gpio (allocated s) p In (Some Both))
                 (SensorCallback (length (entities s))) err]"
      then have "entities s' = entities s @ [sensor_entity env nm dc]" by (rule conjunct1)
      then show ?thesis by (rule disjI2)
    qed
  next
    case (Inr r)
    with assms(2) have "createBinarySensor env nm p dc s = (Inr r, s')" by simp
    from createBinarySensor_Inr(2) [OF this] show ?thesis by (rule disjI2)
  qed
  then show ?thesis
  proof
    assume "entities s' = entities s"
    with assms(1) show ?thesis by (simp only:)
  next
    assume e: "entities s' = entities s @ [sensor_entity env nm dc]"
    show ?thesis
      unfolding e
      by (rule drop_snoc_all [where Q = "\<lambda>x. entity_id (fst x)
                = makeId env (''gpio '' @ entity_name (fst x))"])
         (rule assms(1), rule derived_id_sensor)
  qed
qed

lemma derived_ids_createSwitch:
  assumes "\<forall>x \<in> set (drop k (entities s)).
             entity_id (fst x) = makeId env (''gpio '' @ entity_name (fst x))"
    and "createSwitch env nm p ic s = (res, s')"
  shows "\<forall>x \<in> set (drop k (entities s')).
           entity_id (fst x) = makeId env (''gpio '' @ entity_name (fst x))"
proof -
  have "entities s' = entities s
      \<or> entities s' = entities s @ [switch_entity env nm ic (Gpio (allocated s) p Out None)]"
  proof (cases res)
    case (Inl err)
    with assms(2) have "createSwitch env nm p ic s = (Inl err, s')" by simp
    from createSwitch_Inl [OF this] show ?thesis
    proof
      assume "s' = emit (OpenThrew p Out None err) s"
      then have "entities s' = entities s" by (simp only: emit_fields)
      then show ?thesis by (rule disjI1)
    next
      assume "entities s' = entities s \<and> gpios s' = gpios s @ [Gpio (allocated s) p Out None]
          \<and> watchers s' = watchers s \<and> allocated s' = Suc (allocated s)
          \<and> trace s' = trace s @
              [Opened (Gpio (allocated s) p Out None),
               AddThrew (fst (switch_entity env nm ic (Gpio (allocated s) p Out None)))
                 (snd (switch_entity env nm ic (Gpio (allocated s) p Out None))) err]"
      then have "entities s' = entities s" by (rule conjunct1)
      then show ?thesis by (rule disjI1)
    qed
  next
    case (Inr r)
    with assms(2) have "createSwitch env nm p ic s = (Inr r, s')" by simp
    from createSwitch_Inr(2) [OF this] show ?thesis by (rule disjI2)
  qed
  then show ?thesis
  proof
    assume "entities s' = entities s"
    with assms(1) show ?thesis by (simp only:)
  next
    assume e: "entities s' = entities s @ [switch_entity env nm ic (Gpio (allocated s) p Out None)]"
    show ?thesis
      unfolding e
      by (rule drop_snoc_all [where Q = "\<lambda>x. entity_id (fst x)
                = makeId env (''gpio '' @ entity_name (fst x))"])
         (rule assms(1), rule derived_id_switch)
  qed
qed

lemma derived_ids_bootstrap:
  assumes "onApplicationBootstrap env cfg s = (res, s')"
  shows "\<forall>x \<in> set (drop (length (entities s)) (entities s')).
           entity_id (fst x) = makeId env (''gpio '' @ entity_name (fst x))"
proof -
  let ?P = "\<lambda>t. \<forall>x \<in> set (drop (length (entities s)) (entities t)).
                  entity_id (fst x) = makeId env (''gpio '' @ entity_name (fst x))"
  obtain r1 s1 where
    a: "forEach (\<lambda>b. createBinarySensor env (name b) (pin b) (deviceClass b)) (binarySensors cfg) s
          = (r1, s1)"
    by (cases "forEach (\<lambda>b. createBinarySensor env (name b) (pin b) (deviceClass b))
                 (binarySensors cfg) s")
  have P0: "?P s" by simp
  have P1: "?P s1"
    by (rule forEach_invariant [where P = ?P, OF _ P0 a])
       (rule derived_ids_createBinarySensor)
  show ?thesis
  proof (cases r1)
    case (Inl e)
    with a assms have "s' = s1" by (simp add: onApplicationBootstrap_def)
    with P1 show ?thesis by simp
  next
    case (Inr u)
    with a assms have
      b: "forEach (\<lambda>w. createSwitch env (name w) (pin w) (icon w)) (switches cfg) s1 = (res, s')"
      by (simp add: onApplicationBootstrap_def)
    show ?thesis
      by (rule forEach_invariant [where P = ?P, OF _ P1 b])
         (rule derived_ids_createSwitch)
  qed
qed

lemma bootstrap_names:
  assumes "onApplicationBootstrap env cfg s = (Inr (), s')"
  shows "map (\<lambda>x. entity_name (fst x)) (drop (length (entities s)) (entities s'))
           = map name (binarySensors cfg) @ map name (switches cfg)"
proof -
  have sw: "map (\<lambda>i. entity_name (fst (switch_entity env (name (switches cfg ! i)) (icon (switches cfg ! i))
                  (Gpio (allocated s + length (binarySensors cfg) + i) (pin (switches cfg ! i)) Out None))))
             [0..<length (switches cfg)] = map name (switches cfg)"
    by (rule nth_equalityI) (simp_all add: switch_entity_def)
  have se: "map (\<lambda>d. entity_name (fst (sensor_entity env (name d) (deviceClass d)))) (binarySensors cfg)
      = map name (binarySensors cfg)"
    by (simp add: sensor_entity_def)
  show ?thesis
    unfolding bootstrap_Inr(1) [OF assms]
    by (simp add: comp_def sw se)
qed

subsection \<open>Writing a switch\<close>

lemma write_calls_emit [simp]: "write_calls (emit ev s) = write_calls s @ written ev"
  by (simp add: write_calls_def)

lemma set_state_write_calls [simp]: "write_calls (set_state r b s) = write_calls s"
  by (simp add: set_state_def write_calls_def emit_def)

lemma setState_written:
  assumes "r < length (entities s)" and "fst (entities s ! r) = GpioSwitch i n g st"
    and "write_throws env s g (if desired then 1 else 0) = None"
  shows "setState env r desired s
           = (Inr (), set_state r desired (emit (Written g (if desired then 1 else 0)) s))"
  using assms by (simp add: setState_def gpio_writeSync_def)

lemma setState_failed:
  assumes "r < length (entities s)" and "fst (entities s ! r) = GpioSwitch i n g st"
    and "write_throws env s g (if desired then 1 else 0) = Some err"
  shows "setState env r desired s = (Inl err, emit (Written g (if desired then 1 else 0)) s)"
  using assms by (simp add: setState_def gpio_writeSync_def)

subsection \<open>The example runs\<close>

lemmas run_defs =
  onApplicationBootstrap_def onApplicationShutdown_def createBinarySensor_def createSwitch_def
  entitiesService_add_def new_Gpio_def gpio_watch_def gpio_unexport_def emit_def logger_log_def
  logger_error_def Let_def new_GpioService_def

lemma quiet_bootstrap:
  "onApplicationBootstrap quiet_env example_config new_GpioService = (Inr (), example_booted)"
  by (simp add: run_defs quiet_env_def example_config_def example_booted_def)


lemma quiet_shutdown:
  "onApplicationShutdown quiet_env example_booted =
     (Inr (), example_booted
        \<lparr>watchers := [],
         trace := trace example_booted @
           [Logged ClosingOpenedPins, Unexported (Gpio 0 4 In (Some Both)),
            Unexported (Gpio 1 17 Out None)]\<rparr>)"
  by (simp add: run_defs quiet_env_def example_booted_def)

lemma faulty_shutdown:
  "onApplicationShutdown faulty_env example_booted =
     (Inl (Error ''EACCES'' ''unexport''),
      example_booted
        \<lparr>watchers := [],
         trace := trace example_booted @
           [Logged ClosingOpenedPins, Unexported (Gpio 0 4 In (Some Both))]\<rparr>)"
  by (simp add: run_defs faulty_env_def example_booted_def)


lemma startup_faults_bootstrap_aborts:
  "onApplicationBootstrap startup_faults_env failing_config new_GpioService
     = (Inl (Error ''EINVAL'' ''open''), example_aborted)"
  by (simp add: run_defs startup_faults_env_def failing_config_def example_aborted_def)


lemma startup_faults_shutdown_aborted:
  "onApplicationShutdown startup_faults_env example_aborted =
     (Inr (),
      example_aborted
        \<lparr>watchers := [],
         trace := trace example_aborted @
           [Logged ClosingOpenedPins, Unexported (Gpio 0 4 In (Some Both)),
            Unexported (Gpio 1 5 In (Some Both))]\<rparr>)"
  by (simp add: run_defs startup_faults_env_def example_aborted_def)


lemma watch_fault_shutdown:
  "onApplicationShutdown watch_fault_env example_unwatched =
     (Inr (),
      example_unwatched
        \<lparr>watchers := [],
         trace := trace example_unwatched @
           [Logged ClosingOpenedPins, Unexported (Gpio 0 4 In (Some Both)),
            Unexported (Gpio 1 5 In (Some Both))]\<rparr>)"
  by (simp add: run_defs watch_fault_env_def example_unwatched_def)

lemma startup_faults_sensors:
  "forEach (\<lambda>b. createBinarySensor startup_faults_env (name b) (pin b) (deviceClass b))
     (binarySensors failing_config) new_GpioService = (Inr (), example_sensors_done)"
  by (simp add: run_defs startup_faults_env_def failing_config_def example_aborted_def
      example_sensors_done_def)

lemma startup_faults_valve:
  "createSwitch startup_faults_env ''valve'' 6 None example_sensors_done
     = (Inl (Error ''EINVAL'' ''open''), example_aborted)"
  by (simp add: run_defs startup_faults_env_def example_aborted_def example_sensors_done_def)

lemma example_listeners:
  "listeners (Gpio 0 4 In (Some Both)) example_booted = [SensorCallback 0]"
  by (simp add: listeners_def example_booted_def)

section \<open>The properties of the bridge\<close>

subsection \<open>C1: shutdown releases what bootstrap opened\<close>




subsection \<open>C2: a release that throws\<close>

text \<open>
  As stated, C2 fails: there is no handler around \<^verbatim>\<open>gpio.unexport()\<close>. With the
  registry of the example and a first handle that cannot be released, shutdown raises the
  error to its caller, never calls \<^verbatim>\<open>unexport\<close> on the second handle, and logs
  nothing about the failure.
\<close>

theorem shutdown_release_failure_counterexample:
  "gpios example_booted = [Gpio 0 4 In (Some Both), Gpio 1 17 Out None]
   \<and> unexport_throws faulty_env example_booted (Gpio 0 4 In (Some Both))
        = Some (Error ''EACCES'' ''unexport'')
   \<and> fst (onApplicationShutdown faulty_env example_booted) = Inl (Error ''EACCES'' ''unexport'')
   \<and> Gpio 1 17 Out None \<notin> set (unexport_calls (snd (onApplicationShutdown faulty_env example_booted)))
   \<and> log_entries (snd (onApplicationShutdown faulty_env example_booted))
        = [OpeningPinAsInput 4, ClosingOpenedPins]"
proof -
  have "gpios example_booted = [Gpio 0 4 In (Some Both), Gpio 1 17 Out None]"
    by (simp add: example_booted_def)
  moreover have "unexport_throws faulty_env example_booted (Gpio 0 4 In (Some Both))
        = Some (Error ''EACCES'' ''unexport'')"
    by (simp add: faulty_env_def)
  moreover have "fst (onApplicationShutdown faulty_env example_booted)
        = Inl (Error ''EACCES'' ''unexport'')"
    by (simp add: faulty_shutdown)
  moreover have "Gpio 1 17 Out None
        \<notin> set (unexport_calls (snd (onApplicationShutdown faulty_env example_booted)))"
    unfolding faulty_shutdown by (simp add: example_booted_def unexport_calls_def)
  moreover have "log_entries (snd (onApplicationShutdown faulty_env example_booted))
        = [OpeningPinAsInput 4, ClosingOpenedPins]"
    unfolding faulty_shutdown by (simp add: example_booted_def log_entries_def)
  ultimately show ?thesis by simp
qed

text \<open>
  C2, amended. For every registry of opened handles, if the handles before \<open>g\<close> were
  released and releasing \<open>g\<close> throws, then shutdown ends there: the exception is the result
  of shutdown, \<^verbatim>\<open>unexport\<close> has been called on the handles up to and including \<open>g\<close> and
  on none of the handles after it, and the only line logged is the opening one.
\<close>

theorem shutdown_stops_at_failed_release:
  assumes "gpios s = pre @ g # post"
    and "forEach (gpio_unexport env) pre (logger_log ClosingOpenedPins s) = (Inr (), s1)"
    and "unexport_throws env s1 g = Some err"
  shows "onApplicationShutdown env s
           = (Inl err, emit (Unexported g) (s1\<lparr>watchers := filter (\<lambda>w. fst w \<noteq> g) (watchers s1)\<rparr>))
       \<and> unexport_calls (emit (Unexported g) (s1\<lparr>watchers := filter (\<lambda>w. fst w \<noteq> g) (watchers s1)\<rparr>))
           = unexport_calls s @ pre @ [g]
       \<and> log_entries (emit (Unexported g) (s1\<lparr>watchers := filter (\<lambda>w. fst w \<noteq> g) (watchers s1)\<rparr>))
           = log_entries s @ [ClosingOpenedPins]"
proof -
  let ?s2 = "emit (Unexported g) (s1\<lparr>watchers := filter (\<lambda>w. fst w \<noteq> g) (watchers s1)\<rparr>)"
  have step: "gpio_unexport env g s1 = (Inl err, ?s2)"
    using assms(3) by (simp add: gpio_unexport_def)
  have run: "onApplicationShutdown env s = (Inl err, ?s2)"
    unfolding onApplicationShutdown_def assms(1)
    by (rule forEach_stops [OF assms(2) step])
  from unexport_all_Inr [OF assms(2)]
  have "unexport_calls s1 = unexport_calls s @ pre"
    and "log_entries s1 = log_entries s @ [ClosingOpenedPins]"
    by (simp_all add: logger_log_def)
  moreover from gpio_unexport_calls [OF step]
  have "unexport_calls ?s2 = unexport_calls s1 @ [g]" and "log_entries ?s2 = log_entries s1"
    by simp_all
  ultimately have "unexport_calls ?s2 = unexport_calls s @ pre @ [g]"
    and "log_entries ?s2 = log_entries s @ [ClosingOpenedPins]"
    by simp_all
  with run show ?thesis by (intro conjI)
qed

theorem shutdown_stops_at_failed_release_witness:
  "gpios example_aborted = [Gpio 0 4 In (Some Both)] @ Gpio 1 5 In (Some Both) # []
   \<and> fst (forEach (gpio_unexport late_fault_env) [Gpio 0 4 In (Some Both)]
            (logger_log ClosingOpenedPins example_aborted)) = Inr ()
   \<and> fst (onApplicationShutdown late_fault_env example_aborted) = Inl (Error ''EBUSY'' ''unexport'')"
proof -
  let ?s1 = "snd (forEach (gpio_unexport late_fault_env) [Gpio 0 4 In (Some Both)]
                 (logger_log ClosingOpenedPins example_aborted))"
  have h1: "gpios example_aborted = [Gpio 0 4 In (Some Both)] @ Gpio 1 5 In (Some Both) # []"
    by (simp add: example_aborted_def)
  have h2: "forEach (gpio_unexport late_fault_env) [Gpio 0 4 In (Some Both)]
              (logger_log ClosingOpenedPins example_aborted) = (Inr (), ?s1)"
    by (simp add: gpio_unexport_def late_fault_env_def)
  have h3: "unexport_throws late_fault_env ?s1 (Gpio 1 5 In (Some Both))
              = Some (Error ''EBUSY'' ''unexport'')"
    by (simp add: late_fault_env_def)
  have h4: "fst (forEach (gpio_unexport late_fault_env) [Gpio 0 4 In (Some Both)]
            (logger_log ClosingOpenedPins example_aborted)) = Inr ()"
    by (simp add: gpio_unexport_def late_fault_env_def)
  from shutdown_stops_at_failed_release [OF h1 h2 h3]
  have "fst (onApplicationShutdown late_fault_env example_aborted)
          = Inl (Error ''EBUSY'' ''unexport'')"
    by simp
  with h1 h4 show ?thesis by simp
qed

subsection \<open>C3: a sensor declaration\<close>

text \<open>
  C3. Let \<open>d\<close> be a sensor declaration that bootstrap processed without error: the
  declarations before it were processed and \<^verbatim>\<open>createBinarySensor\<close> returned for it.
  Whatever happens in the rest of the bootstrap, the registry of entities holds at the
  returned reference a binary sensor whose id is \<^verbatim>\<open>makeId\<close> of \<open>''gpio ''\<close> followed by
  the name, registered with one customization for \<^verbatim>\<open>BinarySensorConfig\<close> that overrides
  \<^verbatim>\<open>deviceClass\<close> with the declared value; the handle opened for it is on the declared
  pin, an input watching both edges; and for every sequence of notifications without
  error on that handle, the state values written to the sensor are \<open>level \<noteq> 0\<close> of each
  notification, in order, one for one, the last one being the state of the entity.
\<close>

theorem sensor_follows_edge_notifications:
  assumes "consistent s"
    and "binarySensors cfg = pre @ d # post"
    and "forEach (\<lambda>b. createBinarySensor env (name b) (pin b) (deviceClass b)) pre s = (Inr (), s1)"
    and "createBinarySensor env (name d) (pin d) (deviceClass d) s1 = (Inr r, s2)"
    and "onApplicationBootstrap env cfg s = (res, s')"
    and "g = last (gpios s2)"
  shows "entities s' ! r =
           (BinarySensor (makeId env (''gpio '' @ name d)) (name d) None,
            [\<lparr>for_config = BinarySensorConfig, overrides = [(''deviceClass'', deviceClass d)]\<rparr>])
       \<and> gpio_pin g = pin d \<and> gpio_direction g = In \<and> gpio_edge g = Some Both
       \<and> g \<in> set (opened_gpios s') \<and> g \<in> set (gpios s')
       \<and> listeners g s' = [SensorCallback r]
       \<and> (\<forall>vs. state_writes r (notify_all g (map (\<lambda>v. (None, v)) vs) s')
                 = state_writes r s' @ map (\<lambda>v. v \<noteq> 0) vs)
       \<and> (\<forall>vs. vs \<noteq> [] \<longrightarrow>
             entity_state (fst (entities (notify_all g (map (\<lambda>v. (None, v)) vs) s') ! r))
               = Some (last vs \<noteq> 0))"
proof -
  have g: "g = Gpio (allocated s1) (pin d) In (Some Both)"
    using createBinarySensor_Inr(3) [OF assms(4)] assms(6) by simp
  from bound_sensor_bootstrap [OF assms(1-5)]
  have b: "bound_sensor g r (sensor_entity env (name d) (deviceClass d)) s'"
    unfolding g .
  then have ent: "entities s' ! r = sensor_entity env (name d) (deviceClass d)"
    and len: "r < length (entities s')" and lis: "listeners g s' = [SensorCallback r]"
    and mem: "g \<in> set (gpios s')" and c: "consistent s'"
    by (simp_all add: bound_sensor_def)
  from c mem have opened: "g \<in> set (opened_gpios s')" by (simp add: consistent_def)
  have writes: "\<forall>vs. state_writes r (notify_all g (map (\<lambda>v. (None, v)) vs) s')
                 = state_writes r s' @ map (\<lambda>v. v \<noteq> 0) vs"
    using notify_all_mixed [OF lis len] by (simp add: accepted_values)
  have final: "\<forall>vs. vs \<noteq> [] \<longrightarrow>
             entity_state (fst (entities (notify_all g (map (\<lambda>v. (None, v)) vs) s') ! r))
               = Some (last vs \<noteq> 0)"
    using notify_all_last_value [OF lis len] by simp
  have shape: "gpio_pin g = pin d \<and> gpio_direction g = In \<and> gpio_edge g = Some Both"
    by (simp add: g)
  show ?thesis
    using ent shape opened mem lis writes final by (simp add: sensor_entity_def)
qed

theorem sensor_follows_edge_notifications_witness:
  "consistent new_GpioService
   \<and> binarySensors failing_config
       = [\<lparr>name = ''front-door'', pin = 4, deviceClass = Some ''door''\<rparr>]
           @ \<lparr>name = ''window'', pin = 5, deviceClass = None\<rparr> # []
   \<and> createBinarySensor startup_faults_env ''window'' 5 None
        (snd (forEach (\<lambda>b. createBinarySensor startup_faults_env (name b) (pin b) (deviceClass b))
                [\<lparr>name = ''front-door'', pin = 4, deviceClass = Some ''door''\<rparr>] new_GpioService))
       = (Inr 1, example_sensors_done)
   \<and> onApplicationBootstrap startup_faults_env failing_config new_GpioService
       = (Inl (Error ''EINVAL'' ''open''), example_aborted)
   \<and> last (gpios example_sensors_done) = Gpio 1 5 In (Some Both)
   \<and> entities example_aborted ! 1 =
       (BinarySensor ''gpio window'' ''window'' None,
        [\<lparr>for_config = BinarySensorConfig, overrides = [(''deviceClass'', None)]\<rparr>])
   \<and> state_writes 1
        (notify_all (Gpio 1 5 In (Some Both)) (map (\<lambda>v. (None, v)) [1, 0, 1]) example_aborted)
       = [True, False, True]"
proof -
  let ?front = "\<lparr>name = ''front-door'', pin = 4, deviceClass = Some ''door''\<rparr>"
  let ?window = "\<lparr>name = ''window'', pin = 5, deviceClass = None\<rparr>"
  let ?s1 = "snd (forEach (\<lambda>b. createBinarySensor startup_faults_env (name b) (pin b) (deviceClass b))
                [?front] new_GpioService)"
  have h2: "binarySensors failing_config = [?front] @ ?window # []"
    by (simp add: failing_config_def)
  have h3: "forEach (\<lambda>b. createBinarySensor startup_faults_env (name b) (pin b) (deviceClass b))
              [?front] new_GpioService = (Inr (), ?s1)"
    by (simp add: run_defs startup_faults_env_def)
  have h4: "createBinarySensor startup_faults_env ''window'' 5 None ?s1 = (Inr 1, example_sensors_done)"
    by (simp add: run_defs startup_faults_env_def example_sensors_done_def example_aborted_def)
  have h4': "createBinarySensor startup_faults_env (name ?window) (pin ?window) (deviceClass ?window) ?s1
               = (Inr 1, example_sensors_done)"
    using h4 by simp
  have g: "last (gpios example_sensors_done) = Gpio 1 5 In (Some Both)"
    by (simp add: example_sensors_done_def example_aborted_def)
  have w: "state_writes 1 example_aborted = []"
    by (simp add: example_aborted_def state_writes_def)
  note T = sensor_follows_edge_notifications
      [OF consistent_new h2 h3 h4' startup_faults_bootstrap_aborts g [symmetric]]
  from T have e: "entities example_aborted ! 1 =
       (BinarySensor ''gpio window'' ''window'' None,
        [\<lparr>for_config = BinarySensorConfig, overrides = [(''deviceClass'', None)]\<rparr>])"
    by (simp add: startup_faults_env_def)
  from T have "state_writes 1
        (notify_all (Gpio 1 5 In (Some Both)) (map (\<lambda>v. (None, v)) [1, 0, 1]) example_aborted)
       = state_writes 1 example_aborted @ map (\<lambda>v. v \<noteq> 0) [1, 0, 1::int]"
    by blast
  then have n: "state_writes 1
        (notify_all (Gpio 1 5 In (Some Both)) (map (\<lambda>v. (None, v)) [1, 0, 1]) example_aborted)
       = [True, False, True]"
    using w by simp
  show ?thesis
    by (intro conjI) (fact consistent_new, fact h2, fact h4, fact startup_faults_bootstrap_aborts,
        fact g, fact e, fact n)
qed

subsection \<open>C4: a notification that carries a read error\<close>

text \<open>
  C4. For a handle whose listener is the callback of a sensor, as bootstrap leaves every
  watched input pin: a notification that carries an error logs the message and the stack
  of the error, writes nothing to the sensor, leaves every entity and every listener as
  it was, and the next notification without error sets the state of the sensor. In any
  sequence of notifications the states written are those of the notifications without
  error, in order.
\<close>

theorem read_error_is_logged_and_skipped:
  assumes "listeners g s = [SensorCallback r]" and "r < length (entities s)"
  shows "log_entries (notify g (Some e, v) s) = log_entries s @ [ErrorLogged (message e) (stack e)]
       \<and> entities (notify g (Some e, v) s) = entities s
       \<and> state_writes r (notify g (Some e, v) s) = state_writes r s
       \<and> watchers (notify g (Some e, v) s) = watchers s
       \<and> listeners g (notify g (Some e, v) s) = [SensorCallback r]
       \<and> state_writes r (notify g (None, v') (notify g (Some e, v) s)) = state_writes r s @ [v' \<noteq> 0]
       \<and> entity_state (fst (entities (notify g (None, v') (notify g (Some e, v) s)) ! r))
           = Some (v' \<noteq> 0)
       \<and> state_writes r (notify_all g ns s) = state_writes r s @ accepted ns"
proof -
  have err: "notify g (Some e, v) s = logger_error (message e) (stack e) s"
    by (rule notify_error [OF assms(1)])
  have nxt: "notify g (None, v') (logger_error (message e) (stack e) s)
               = set_state r (v' \<noteq> 0) (logger_error (message e) (stack e) s)"
    by (rule notify_value) (simp add: assms(1))
  have "state_writes r (notify_all g ns s) = state_writes r s @ accepted ns"
    using notify_all_mixed [OF assms] by simp
  then show ?thesis
    using assms by (simp add: err nxt set_state_writes set_state_entity)
qed

theorem read_error_is_logged_and_skipped_witness:
  "listeners (Gpio 0 4 In (Some Both)) example_booted = [SensorCallback 0]
   \<and> (0::nat) < length (entities example_booted)
   \<and> log_entries (notify (Gpio 0 4 In (Some Both)) (Some (Error ''EIO'' ''poll''), 0) example_booted)
       = [OpeningPinAsInput 4, ErrorLogged ''EIO'' ''poll'']
   \<and> state_writes 0
        (notify_all (Gpio 0 4 In (Some Both))
           [(None, 1), (Some (Error ''EIO'' ''poll''), 0), (None, 0)] example_booted)
       = [True, False]"
proof -
  have h2: "(0::nat) < length (entities example_booted)"
    by (simp add: example_booted_def)
  have l: "log_entries example_booted = [OpeningPinAsInput 4]"
    by (simp add: example_booted_def log_entries_def)
  have w: "state_writes 0 example_booted = []"
    by (simp add: example_booted_def state_writes_def)
  from read_error_is_logged_and_skipped [OF example_listeners h2,
      of "Error ''EIO'' ''poll''" 0 0 "[(None, 1), (Some (Error ''EIO'' ''poll''), 0), (None, 0)]"]
  show ?thesis
    using example_listeners h2 by (simp add: l w accepted_def)
qed

subsection \<open>C5: the registry after bootstrap\<close>

text \<open>
  C5. After a bootstrap that completes without error, the handles opened during the run
  are exactly the handles appended to the registry, in the same order, and the registry
  holds no handle twice: every opened handle appears in it exactly once.
\<close>

theorem bootstrap_registers_every_opened_gpio:
  assumes "consistent s" and "onApplicationBootstrap env cfg s = (Inr (), s')"
  shows "(\<exists>new. opened_gpios s' = opened_gpios s @ new \<and> gpios s' = gpios s @ new)
       \<and> opened_gpios s' = gpios s' \<and> distinct (gpios s')"
proof -
  have c: "consistent s'" by (rule consistent_bootstrap [OF assms])
  then have "opened_gpios s' = gpios s'" by (simp add: consistent_def)
  with bootstrap_registry [OF assms] consistent_distinct [OF c] show ?thesis by simp
qed

theorem bootstrap_registers_every_opened_gpio_witness:
  "consistent new_GpioService
   \<and> onApplicationBootstrap quiet_env example_config new_GpioService = (Inr (), example_booted)
   \<and> opened_gpios example_booted = gpios example_booted
   \<and> gpios example_booted = [Gpio 0 4 In (Some Both), Gpio 1 17 Out None]"
proof -
  have "gpios example_booted = [Gpio 0 4 In (Some Both), Gpio 1 17 Out None]"
    by (simp add: example_booted_def)
  with bootstrap_registers_every_opened_gpio [OF consistent_new quiet_bootstrap]
  show ?thesis using consistent_new quiet_bootstrap by simp
qed

subsection \<open>C6: the first failure ends the bootstrap\<close>

text \<open>
  C6. If \<^verbatim>\<open>createBinarySensor\<close> throws for a sensor declaration (its registration,
  its open or its watch failed) after the declarations before it were processed, bootstrap returns that
  exception and the state reached at that moment, whatever declarations follow in either
  list; likewise when \<^verbatim>\<open>createSwitch\<close> throws for a switch declaration, whatever switch
  declarations follow. Every failure of bootstrap is one of these two: its result is the
  state in which the failing declaration threw, so nothing was registered or opened after
  it, and the exception is the one that declaration raised.
\<close>

theorem bootstrap_aborts_at_first_failure:
  "(forEach (\<lambda>b. createBinarySensor env (name b) (pin b) (deviceClass b)) pre s = (Inr (), s1)
      \<and> createBinarySensor env (name d) (pin d) (deviceClass d) s1 = (Inl err, s2)
    \<longrightarrow> onApplicationBootstrap env \<lparr>binarySensors = pre @ d # post, switches = sw\<rparr> s
          = (Inl err, s2))
 \<and> (forEach (\<lambda>b. createBinarySensor env (name b) (pin b) (deviceClass b)) bs s = (Inr (), s1)
      \<and> forEach (\<lambda>w. createSwitch env (name w) (pin w) (icon w)) wpre s1 = (Inr (), s2)
      \<and> createSwitch env (name w) (pin w) (icon w) s2 = (Inl err, s3)
    \<longrightarrow> onApplicationBootstrap env \<lparr>binarySensors = bs, switches = wpre @ w # wpost\<rparr> s
          = (Inl err, s3))
 \<and> (onApplicationBootstrap env cfg s = (Inl err, s')
    \<longrightarrow> (\<exists>pre d post s1. binarySensors cfg = pre @ d # post
            \<and> forEach (\<lambda>b. createBinarySensor env (name b) (pin b) (deviceClass b)) pre s = (Inr (), s1)
            \<and> createBinarySensor env (name d) (pin d) (deviceClass d) s1 = (Inl err, s'))
       \<or> (\<exists>pre d post s1 s2. switches cfg = pre @ d # post
            \<and> forEach (\<lambda>b. createBinarySensor env (name b) (pin b) (deviceClass b))
                 (binarySensors cfg) s = (Inr (), s1)
            \<and> forEach (\<lambda>w. createSwitch env (name w) (pin w) (icon w)) pre s1 = (Inr (), s2)
            \<and> createSwitch env (name d) (pin d) (icon d) s2 = (Inl err, s')))"
  using bootstrap_sensor_failure [of env pre s s1 d err s2 post sw]
    bootstrap_switch_failure [of env bs s s1 wpre s2 w err s3 wpost]
    bootstrap_failure_origin [of env cfg s err s']
  by blast

theorem bootstrap_aborts_at_first_failure_witness:
  "forEach (\<lambda>b. createBinarySensor startup_faults_env (name b) (pin b) (deviceClass b))
     (binarySensors failing_config) new_GpioService = (Inr (), example_sensors_done)
   \<and> forEach (\<lambda>w. createSwitch startup_faults_env (name w) (pin w) (icon w)) []
        example_sensors_done = (Inr (), example_sensors_done)
   \<and> createSwitch startup_faults_env (name \<lparr>name = ''valve'', pin = 6, icon = None\<rparr>)
        (pin \<lparr>name = ''valve'', pin = 6, icon = None\<rparr>)
        (icon \<lparr>name = ''valve'', pin = 6, icon = None\<rparr>) example_sensors_done
       = (Inl (Error ''EINVAL'' ''open''), example_aborted)
   \<and> onApplicationBootstrap startup_faults_env
        \<lparr>binarySensors = binarySensors failing_config,
         switches = [] @ \<lparr>name = ''valve'', pin = 6, icon = None\<rparr>
                      # [\<lparr>name = ''lamp'', pin = 17, icon = Some ''mdi:lamp''\<rparr>]\<rparr>
        new_GpioService
       = (Inl (Error ''EINVAL'' ''open''), example_aborted)"
proof -
  have h2: "forEach (\<lambda>w. createSwitch startup_faults_env (name w) (pin w) (icon w)) []
        example_sensors_done = (Inr (), example_sensors_done)"
    by simp
  have h3: "createSwitch startup_faults_env (name \<lparr>name = ''valve'', pin = 6, icon = None\<rparr>)
        (pin \<lparr>name = ''valve'', pin = 6, icon = None\<rparr>)
        (icon \<lparr>name = ''valve'', pin = 6, icon = None\<rparr>) example_sensors_done
       = (Inl (Error ''EINVAL'' ''open''), example_aborted)"
    using startup_faults_valve by simp
  note T = bootstrap_aborts_at_first_failure
      [where env = startup_faults_env and bs = "binarySensors failing_config"
         and s = new_GpioService and ?s1.0 = example_sensors_done and wpre = "[]"
         and ?s2.0 = example_sensors_done and w = "\<lparr>name = ''valve'', pin = 6, icon = None\<rparr>"
         and err = "Error ''EINVAL'' ''open''" and ?s3.0 = example_aborted
         and wpost = "[\<lparr>name = ''lamp'', pin = 17, icon = Some ''mdi:lamp''\<rparr>]",
       THEN conjunct2, THEN conjunct1]
  from T startup_faults_sensors h2 h3
  have "onApplicationBootstrap startup_faults_env
        \<lparr>binarySensors = binarySensors failing_config,
         switches = [] @ \<lparr>name = ''valve'', pin = 6, icon = None\<rparr>
                      # [\<lparr>name = ''lamp'', pin = 17, icon = Some ''mdi:lamp''\<rparr>]\<rparr>
        new_GpioService
       = (Inl (Error ''EINVAL'' ''open''), example_aborted)"
    by blast
  with startup_faults_sensors h2 h3 show ?thesis by blast
qed

subsection \<open>C7: different names, different ids\<close>

text \<open>
  C7. If \<^verbatim>\<open>makeId\<close> is injective, then among the entities registered in one bootstrap
  run, whether the run completes or fails, each id is \<^verbatim>\<open>makeId\<close> of \<open>''gpio ''\<close>
  followed by the name, and two entities with different names have different ids. When
  the run completes, the names of the registered entities are the declared names, sensors
  first, in order.
\<close>

theorem different_names_get_different_ids:
  assumes "inj (makeId env)" and "onApplicationBootstrap env cfg s = (res, s')"
    and "new = drop (length (entities s)) (entities s')"
    and "i < length new" and "j < length new"
    and "entity_name (fst (new ! i)) \<noteq> entity_name (fst (new ! j))"
  shows "entity_id (fst (new ! i)) = makeId env (''gpio '' @ entity_name (fst (new ! i)))
       \<and> entity_id (fst (new ! j)) = makeId env (''gpio '' @ entity_name (fst (new ! j)))
       \<and> entity_id (fst (new ! i)) \<noteq> entity_id (fst (new ! j))
       \<and> (res = Inr () \<longrightarrow>
            map (\<lambda>x. entity_name (fst x)) new = map name (binarySensors cfg) @ map name (switches cfg))"
proof -
  note ids = derived_ids_bootstrap [OF assms(2), folded assms(3)]
  have i: "entity_id (fst (new ! i)) = makeId env (''gpio '' @ entity_name (fst (new ! i)))"
    using ids assms(4) by simp
  have j: "entity_id (fst (new ! j)) = makeId env (''gpio '' @ entity_name (fst (new ! j)))"
    using ids assms(5) by simp
  have "''gpio '' @ entity_name (fst (new ! i)) \<noteq> ''gpio '' @ entity_name (fst (new ! j))"
    using assms(6) by simp
  with assms(1) have ne: "entity_id (fst (new ! i)) \<noteq> entity_id (fst (new ! j))"
    unfolding i j by (simp only: inj_eq not_False_eq_True)
  have names: "res = Inr () \<longrightarrow>
      map (\<lambda>x. entity_name (fst x)) new = map name (binarySensors cfg) @ map name (switches cfg)"
  proof
    assume "res = Inr ()"
    with assms(2) have "onApplicationBootstrap env cfg s = (Inr (), s')" by simp
    from bootstrap_names [OF this]
    show "map (\<lambda>x. entity_name (fst x)) new = map name (binarySensors cfg) @ map name (switches cfg)"
      unfolding assms(3) .
  qed
  show ?thesis
    by (intro conjI) (fact i, fact j, fact ne, fact names)
qed

theorem different_names_get_different_ids_witness:
  "inj (makeId quiet_env)
   \<and> onApplicationBootstrap quiet_env example_config new_GpioService = (Inr (), example_booted)
   \<and> entity_name (fst (entities example_booted ! 0)) \<noteq> entity_name (fst (entities example_booted ! 1))
   \<and> entity_id (fst (entities example_booted ! 0)) \<noteq> entity_id (fst (entities example_booted ! 1))"
proof -
  have h1: "inj (makeId quiet_env)" by (simp add: quiet_env_def inj_def)
  have h3: "entities example_booted
              = drop (length (entities new_GpioService)) (entities example_booted)"
    by (simp add: new_GpioService_def)
  have h4: "0 < length (entities example_booted)" and h5: "1 < length (entities example_booted)"
    by (simp_all add: example_booted_def)
  have h6: "entity_name (fst (entities example_booted ! 0))
              \<noteq> entity_name (fst (entities example_booted ! 1))"
    by (simp add: example_booted_def)
  note T = different_names_get_different_ids [OF h1 quiet_bootstrap h3 h4 h5 h6]
  show ?thesis
    by (intro conjI) (fact h1, fact quiet_bootstrap, fact h6, fact T [THEN conjunct2, THEN conjunct2, THEN conjunct1])
qed

subsection \<open>C8: setting a switch\<close>

text \<open>
  C8, against the contract of \<^verbatim>\<open>GpioSwitch\<close> as the specification gives it. For a
  switch entity bound to a handle and a desired value, \<^verbatim>\<open>setState\<close> makes one write to
  the bound handle, of level 1 for true and 0 for false. When the write succeeds the
  state of the entity is the desired value; when it throws, the exception is the result
  and the entities, so the state of the switch, are as before.
\<close>

theorem setState_writes_bound_pin:
  assumes "r < length (entities s)" and "fst (entities s ! r) = GpioSwitch i n g st"
  shows "(write_throws env s g (if desired then 1 else 0) = None \<longrightarrow>
            fst (setState env r desired s) = Inr ()
          \<and> write_calls (snd (setState env r desired s))
              = write_calls s @ [(g, if desired then 1 else 0)]
          \<and> entity_state (fst (entities (snd (setState env r desired s)) ! r)) = Some desired)
       \<and> (\<forall>err. write_throws env s g (if desired then 1 else 0) = Some err \<longrightarrow>
            fst (setState env r desired s) = Inl err
          \<and> write_calls (snd (setState env r desired s))
              = write_calls s @ [(g, if desired then 1 else 0)]
          \<and> entities (snd (setState env r desired s)) = entities s
          \<and> entity_state (fst (entities (snd (setState env r desired s)) ! r)) = st)"
proof (intro conjI impI allI)
  assume ok: "write_throws env s g (if desired then 1 else 0) = None"
  note st = setState_written [OF assms ok]
  show "fst (setState env r desired s) = Inr ()" by (simp add: st)
  show "write_calls (snd (setState env r desired s)) = write_calls s @ [(g, if desired then 1 else 0)]"
    by (simp add: st)
  show "entity_state (fst (entities (snd (setState env r desired s)) ! r)) = Some desired"
    using assms(1) by (simp add: st set_state_entity)
next
  fix err assume bad: "write_throws env s g (if desired then 1 else 0) = Some err"
  note st = setState_failed [OF assms bad]
  show "fst (setState env r desired s) = Inl err" by (simp add: st)
  show "write_calls (snd (setState env r desired s)) = write_calls s @ [(g, if desired then 1 else 0)]"
    by (simp add: st)
  show "entities (snd (setState env r desired s)) = entities s" by (simp add: st)
  show "entity_state (fst (entities (snd (setState env r desired s)) ! r)) = st"
    using assms(2) by (simp add: st)
qed

theorem setState_writes_bound_pin_witness:
  "(1::nat) < length (entities example_booted)
   \<and> fst (entities example_booted ! 1) = GpioSwitch ''gpio lamp'' ''lamp'' (Gpio 1 17 Out None) None
   \<and> write_throws quiet_env example_booted (Gpio 1 17 Out None) (if True then 1 else 0) = None
   \<and> write_calls (snd (setState quiet_env 1 True example_booted)) = [(Gpio 1 17 Out None, 1)]
   \<and> entity_state (fst (entities (snd (setState quiet_env 1 True example_booted)) ! 1)) = Some True
   \<and> write_throws faulty_env example_booted (Gpio 1 17 Out None) (if True then 1 else 0)
       = Some (Error ''EPERM'' ''write'')
   \<and> fst (setState faulty_env 1 True example_booted) = Inl (Error ''EPERM'' ''write'')
   \<and> entity_state (fst (entities (snd (setState faulty_env 1 True example_booted)) ! 1)) = None"
proof -
  have h1: "(1::nat) < length (entities example_booted)" by (simp add: example_booted_def)
  have h2: "fst (entities example_booted ! 1)
      = GpioSwitch ''gpio lamp'' ''lamp'' (Gpio 1 17 Out None) None"
    by (simp add: example_booted_def)
  have ok: "write_throws quiet_env example_booted (Gpio 1 17 Out None) (if True then 1 else 0) = None"
    by (simp add: quiet_env_def)
  have bad: "write_throws faulty_env example_booted (Gpio 1 17 Out None) (if True then 1 else 0)
       = Some (Error ''EPERM'' ''write'')"
    by (simp add: faulty_env_def)
  have w: "write_calls example_booted = []" by (simp add: example_booted_def write_calls_def)
  from setState_writes_bound_pin [OF h1 h2, of quiet_env True] ok
  have a: "write_calls (snd (setState quiet_env 1 True example_booted)) = [(Gpio 1 17 Out None, 1)]
     \<and> entity_state (fst (entities (snd (setState quiet_env 1 True example_booted)) ! 1)) = Some True"
    by (simp add: w)
  from setState_writes_bound_pin [OF h1 h2, of faulty_env True] bad
  have b: "fst (setState faulty_env 1 True example_booted) = Inl (Error ''EPERM'' ''write'')
     \<and> entity_state (fst (entities (snd (setState faulty_env 1 True example_booted)) ! 1)) = None"
    using h2 by simp
  show ?thesis using h1 h2 ok bad a b by (intro conjI) simp_all
qed

subsection \<open>C9: the registry after a bootstrap that fails\<close>




subsection \<open>C10: the order of effects within one declaration\<close>

text \<open>
  C10. For a sensor declaration the entity is registered before the pin is opened: when the
  registration throws, no handle is opened or added to the registry; when the
  registration succeeds and the open throws, the sensor entity stays registered, with no
  listener and no handle added; without failure the calls are add, log, open, watch in
  this order. For a switch declaration the pin is opened and added to the registry before
  the entity is registered: when the open throws, nothing is registered; when the open
  succeeds and the registration throws, the handle stays opened and in the registry and
  no entity is registered; without failure the calls are open, then add.
\<close>

theorem effects_order_within_declaration:
  "(entitiesService_add env (fst (sensor_entity env nm dc)) (snd (sensor_entity env nm dc)) s
      = (Inl err, s1)
    \<longrightarrow> createBinarySensor env nm p dc s = (Inl err, s1)
        \<and> opened_gpios s1 = opened_gpios s \<and> gpios s1 = gpios s)
 \<and> (entitiesService_add env (fst (sensor_entity env nm dc)) (snd (sensor_entity env nm dc)) s
      = (Inr r, s1)
      \<and> new_Gpio env p In (Some Both) (logger_log (OpeningPinAsInput p) s1) = (Inl err, s2)
    \<longrightarrow> createBinarySensor env nm p dc s = (Inl err, s2)
        \<and> entities s2 = entities s @ [sensor_entity env nm dc]
        \<and> watchers s2 = watchers s \<and> gpios s2 = gpios s)
 \<and> (createBinarySensor env nm p dc s = (Inr r, s')
    \<longrightarrow> trace s' = trace s @
          [Added r (fst (sensor_entity env nm dc)) (snd (sensor_entity env nm dc)),
           Logged (OpeningPinAsInput p),
           Opened (Gpio (allocated s) p In (Some Both)),
           Watched (Gpio (allocated s) p In (Some Both)) (SensorCallback r)])
 \<and> (new_Gpio env p Out None s = (Inl err, s1)
    \<longrightarrow> createSwitch env nm p ic s = (Inl err, s1)
        \<and> entities s1 = entities s \<and> gpios s1 = gpios s)
 \<and> (new_Gpio env p Out None s = (Inr g, s1)
      \<and> entitiesService_add env (fst (switch_entity env nm ic g)) (snd (switch_entity env nm ic g))
           (s1\<lparr>gpios := gpios s1 @ [g]\<rparr>) = (Inl err, s2)
    \<longrightarrow> createSwitch env nm p ic s = (Inl err, s2)
        \<and> gpios s2 = gpios s @ [g] \<and> opened_gpios s2 = opened_gpios s @ [g]
        \<and> entities s2 = entities s)
 \<and> (createSwitch env nm p ic s = (Inr r, s')
    \<longrightarrow> trace s' = trace s @
          [Opened (Gpio (allocated s) p Out None),
           Added r (fst (switch_entity env nm ic (Gpio (allocated s) p Out None)))
             (snd (switch_entity env nm ic (Gpio (allocated s) p Out None)))]
        \<and> gpios s' = gpios s @ [Gpio (allocated s) p Out None])"
proof (intro conjI)
  show "entitiesService_add env (fst (sensor_entity env nm dc)) (snd (sensor_entity env nm dc)) s
      = (Inl err, s1)
    \<longrightarrow> createBinarySensor env nm p dc s = (Inl err, s1)
        \<and> opened_gpios s1 = opened_gpios s \<and> gpios s1 = gpios s"
    using sensor_registration_fails [of env nm dc s err s1 p] by blast
  show "entitiesService_add env (fst (sensor_entity env nm dc)) (snd (sensor_entity env nm dc)) s
      = (Inr r, s1)
      \<and> new_Gpio env p In (Some Both) (logger_log (OpeningPinAsInput p) s1) = (Inl err, s2)
    \<longrightarrow> createBinarySensor env nm p dc s = (Inl err, s2)
        \<and> entities s2 = entities s @ [sensor_entity env nm dc]
        \<and> watchers s2 = watchers s \<and> gpios s2 = gpios s"
    using sensor_open_fails [of env nm dc s r s1 p err s2] by blast
  show "createBinarySensor env nm p dc s = (Inr r, s')
    \<longrightarrow> trace s' = trace s @
          [Added r (fst (sensor_entity env nm dc)) (snd (sensor_entity env nm dc)),
           Logged (OpeningPinAsInput p),
           Opened (Gpio (allocated s) p In (Some Both)),
           Watched (Gpio (allocated s) p In (Some Both)) (SensorCallback r)]"
    using createBinarySensor_Inr(1,6) [of env nm p dc s r s'] by simp
  show "new_Gpio env p Out None s = (Inl err, s1)
    \<longrightarrow> createSwitch env nm p ic s = (Inl err, s1)
        \<and> entities s1 = entities s \<and> gpios s1 = gpios s"
    using switch_open_fails [of env p s err s1 nm ic] by blast
  show "new_Gpio env p Out None s = (Inr g, s1)
      \<and> entitiesService_add env (fst (switch_entity env nm ic g)) (snd (switch_entity env nm ic g))
           (s1\<lparr>gpios := gpios s1 @ [g]\<rparr>) = (Inl err, s2)
    \<longrightarrow> createSwitch env nm p ic s = (Inl err, s2)
        \<and> gpios s2 = gpios s @ [g] \<and> opened_gpios s2 = opened_gpios s @ [g]
        \<and> entities s2 = entities s"
    using switch_registration_fails [of env p s g s1 nm ic err s2] by blast
  show "createSwitch env nm p ic s = (Inr r, s')
    \<longrightarrow> trace s' = trace s @
          [Opened (Gpio (allocated s) p Out None),
           Added r (fst (switch_entity env nm ic (Gpio (allocated s) p Out None)))
             (snd (switch_entity env nm ic (Gpio (allocated s) p Out None)))]
        \<and> gpios s' = gpios s @ [Gpio (allocated s) p Out None]"
    using createSwitch_Inr(1,3,6) [of env nm p ic s r s'] by simp
qed

theorem effects_order_within_declaration_witness:
  "entitiesService_add startup_faults_env
      (fst (sensor_entity startup_faults_env ''broken'' None))
      (snd (sensor_entity startup_faults_env ''broken'' None)) new_GpioService
     = (Inl (Error ''exists'' ''add''),
        snd (entitiesService_add startup_faults_env
          (fst (sensor_entity startup_faults_env ''broken'' None))
          (snd (sensor_entity startup_faults_env ''broken'' None)) new_GpioService))
   \<and> fst (createBinarySensor startup_faults_env ''broken'' 4 None new_GpioService)
       = Inl (Error ''exists'' ''add'')
   \<and> opened_gpios (snd (createBinarySensor startup_faults_env ''broken'' 4 None new_GpioService)) = []
   \<and> new_Gpio startup_faults_env 17 Out None new_GpioService
       = (Inr (Gpio 0 17 Out None), snd (new_Gpio startup_faults_env 17 Out None new_GpioService))
   \<and> fst (createSwitch startup_faults_env ''broken'' 17 None new_GpioService)
       = Inl (Error ''exists'' ''add'')
   \<and> gpios (snd (createSwitch startup_faults_env ''broken'' 17 None new_GpioService))
       = [Gpio 0 17 Out None]
   \<and> entities (snd (createSwitch startup_faults_env ''broken'' 17 None new_GpioService)) = []"
proof -
  let ?e = "fst (sensor_entity startup_faults_env ''broken'' None)"
  let ?cs = "snd (sensor_entity startup_faults_env ''broken'' None)"
  let ?a = "snd (entitiesService_add startup_faults_env ?e ?cs new_GpioService)"
  let ?o = "snd (new_Gpio startup_faults_env 17 Out None new_GpioService)"
  let ?w = "switch_entity startup_faults_env ''broken'' None (Gpio 0 17 Out None)"
  let ?b = "snd (entitiesService_add startup_faults_env (fst ?w) (snd ?w)
                   (?o\<lparr>gpios := gpios ?o @ [Gpio 0 17 Out None]\<rparr>))"
  have h1: "entitiesService_add startup_faults_env ?e ?cs new_GpioService
              = (Inl (Error ''exists'' ''add''), ?a)"
    by (simp add: entitiesService_add_def startup_faults_env_def sensor_entity_def)
  have h2: "new_Gpio startup_faults_env 17 Out None new_GpioService = (Inr (Gpio 0 17 Out None), ?o)"
    by (simp add: new_Gpio_def startup_faults_env_def new_GpioService_def)
  have h3: "entitiesService_add startup_faults_env (fst ?w) (snd ?w)
              (?o\<lparr>gpios := gpios ?o @ [Gpio 0 17 Out None]\<rparr>)
            = (Inl (Error ''exists'' ''add''), ?b)"
    by (simp add: entitiesService_add_def startup_faults_env_def switch_entity_def)
  have g0: "gpios new_GpioService = []" "opened_gpios new_GpioService = []"
    "entities new_GpioService = []"
    by (simp_all add: new_GpioService_def opened_gpios_def)
  note T = effects_order_within_declaration
      [where env = startup_faults_env and nm = "''broken''" and dc = None and s = new_GpioService
         and err = "Error ''exists'' ''add''" and ic = None and g = "Gpio 0 17 Out None"]
  from T [where p = 4 and ?s1.0 = ?a, THEN conjunct1] h1
  have a: "createBinarySensor startup_faults_env ''broken'' 4 None new_GpioService
             = (Inl (Error ''exists'' ''add''), ?a)
           \<and> opened_gpios ?a = opened_gpios new_GpioService"
    by blast
  from T [where p = 17 and ?s1.0 = ?o and ?s2.0 = ?b,
          THEN conjunct2, THEN conjunct2, THEN conjunct2, THEN conjunct2, THEN conjunct1] h2 h3
  have b: "createSwitch startup_faults_env ''broken'' 17 None new_GpioService
             = (Inl (Error ''exists'' ''add''), ?b)
           \<and> gpios ?b = gpios new_GpioService @ [Gpio 0 17 Out None]
           \<and> entities ?b = entities new_GpioService"
    by blast
  show ?thesis
  proof (intro conjI)
    show "entitiesService_add startup_faults_env ?e ?cs new_GpioService
            = (Inl (Error ''exists'' ''add''), ?a)" by (rule h1)
    show "fst (createBinarySensor startup_faults_env ''broken'' 4 None new_GpioService)
            = Inl (Error ''exists'' ''add'')" using a by simp
    show "opened_gpios (snd (createBinarySensor startup_faults_env ''broken'' 4 None new_GpioService))
            = []" using a g0 by simp
    show "new_Gpio startup_faults_env 17 Out None new_GpioService = (Inr (Gpio 0 17 Out None), ?o)"
      by (rule h2)
    show "fst (createSwitch startup_faults_env ''broken'' 17 None new_GpioService)
            = Inl (Error ''exists'' ''add'')" using b by simp
    show "gpios (snd (createSwitch startup_faults_env ''broken'' 17 None new_GpioService))
            = [Gpio 0 17 Out None]" using b g0 by simp
    show "entities (snd (createSwitch startup_faults_env ''broken'' 17 None new_GpioService)) = []"
      using b g0 by simp
  qed
qed

end
